theory Spec2Isabelle
  imports Main "HOL-Library.Sublist"
begin

section \<open>JavaScript values and strings\<close>

text \<open>
  A JavaScript string is a sequence of UTF-16 code units. The model uses \<open>string\<close>: each
  \<open>char\<close> stands for one code unit below 256, so the model covers the strings whose code
  units are all in that range. Everything the engine inspects (braces, the bar, key and
  filter characters, digits, the dash, white space) lies there.
\<close>

text \<open>
  The values a data object can hold. \<open>JNum\<close> stands for an integer-valued number in the
  safe range (where \<open>String\<close> gives the decimal digits), \<open>JFunction n\<close> for the built-in
  function named \<open>n\<close>, \<open>JObject\<close> for a plain object without a \<open>toString\<close> of its own.
\<close>

datatype jsval =
    JUndefined
  | JNull
  | JBool bool
  | JNum int
  | JStr string
  | JFunction string
  | JObject

fun truthy :: "jsval \<Rightarrow> bool" where
  "truthy JUndefined = False"
| "truthy JNull = False"
| "truthy (JBool b) = b"
| "truthy (JNum n) = (n \<noteq> 0)"
| "truthy (JStr s) = (s \<noteq> [])"
| "truthy (JFunction n) = True"
| "truthy JObject = True"

fun digits_of_nat :: "nat \<Rightarrow> string" where
  "digits_of_nat n =
     (if n < 10 then [''0123456789'' ! n]
      else digits_of_nat (n div 10) @ [''0123456789'' ! (n mod 10)])"

declare digits_of_nat.simps [simp del]

definition string_of_int :: "int \<Rightarrow> string" where
  "string_of_int i = (if i < 0 then CHR ''-'' # digits_of_nat (nat (- i)) else digits_of_nat (nat i))"

text \<open>\<open>String(v)\<close>; the text of a built-in function is the one V8 prints.\<close>

fun to_string :: "jsval \<Rightarrow> string" where
  "to_string JUndefined = ''undefined''"
| "to_string JNull = ''null''"
| "to_string (JBool b) = (if b then ''true'' else ''false'')"
| "to_string (JNum n) = string_of_int n"
| "to_string (JStr s) = s"
| "to_string (JFunction n) = ''function '' @ n @ ''() { [native code] }''"
| "to_string JObject = ''[object Object]''"

section \<open>Data objects\<close>

text \<open>
  The data argument is a plain object (an object literal, or the result of \<open>JSON.parse\<close>):
  its own properties, a map from names to values, and behind them the properties every
  plain object inherits from \<open>Object.prototype\<close>. Both \<open>key in data\<close> and \<open>data[key]\<close> look
  through the inherited ones.
\<close>

type_synonym jsobject = "string \<rightharpoonup> jsval"

definition Object_prototype :: "(string \<times> jsval) list" where
  "Object_prototype =
     [(''constructor'', JFunction ''Object''),
      (''__defineGetter__'', JFunction ''__defineGetter__''),
      (''__defineSetter__'', JFunction ''__defineSetter__''),
      (''hasOwnProperty'', JFunction ''hasOwnProperty''),
      (''__lookupGetter__'', JFunction ''__lookupGetter__''),
      (''__lookupSetter__'', JFunction ''__lookupSetter__''),
      (''isPrototypeOf'', JFunction ''isPrototypeOf''),
      (''propertyIsEnumerable'', JFunction ''propertyIsEnumerable''),
      (''toString'', JFunction ''toString''),
      (''valueOf'', JFunction ''valueOf''),
      (''__proto__'', JObject),
      (''toLocaleString'', JFunction ''toLocaleString'')]"

text \<open>\<open>key in obj\<close>\<close>

definition has_property :: "jsobject \<Rightarrow> string \<Rightarrow> bool" where
  "has_property obj key = (obj key \<noteq> None \<or> map_of Object_prototype key \<noteq> None)"

text \<open>\<open>obj[key]\<close>\<close>

definition get_property :: "jsobject \<Rightarrow> string \<Rightarrow> jsval" where
  "get_property obj key =
     (case obj key of
        Some v \<Rightarrow> v
      | None \<Rightarrow> (case map_of Object_prototype key of Some v \<Rightarrow> v | None \<Rightarrow> JUndefined))"

section \<open>Character classes and the placeholder pattern\<close>

text \<open>\<open>\s\<close>: white space and line terminators (the same set \<open>trim\<close> strips).\<close>

definition is_space :: "char \<Rightarrow> bool" where
  "is_space c = (c \<in> set [CHR 0x09, CHR 0x0A, CHR 0x0B, CHR 0x0C, CHR 0x0D, CHR 0x20, CHR 0xA0])"

text \<open>\<open>\d\<close>\<close>

definition is_digit :: "char \<Rightarrow> bool" where
  "is_digit c = (c \<in> set ''0123456789'')"

text \<open>\<open>[a-z]\<close> under the \<open>i\<close> flag\<close>

definition is_alpha :: "char \<Rightarrow> bool" where
  "is_alpha c = (c \<in> set ''abcdefghijklmnopqrstuvwxyzABCDEFGHIJKLMNOPQRSTUVWXYZ'')"

text \<open>\<open>[a-z0-9_]\<close> under the \<open>i\<close> flag\<close>

definition is_key_char :: "char \<Rightarrow> bool" where
  "is_key_char c = (is_alpha c \<or> is_digit c \<or> c = CHR ''_'')"

text \<open>The tail of the pattern, \<open>\s*}}\<close>: what is left after the closing braces.\<close>

definition close_token :: "string \<Rightarrow> string option \<Rightarrow> string \<Rightarrow> (string \<times> string option \<times> string) option" where
  "close_token key flt s =
     (let s' = dropWhile is_space s
      in if take 2 s' = ''}}'' then Some (key, flt, drop 2 s') else None)"

text \<open>
  One attempt of \<open>/{{\s*([a-z0-9_]+)(?:\|([a-z]+))?\s*}}/i\<close> at the head of \<open>s\<close>: the key, the
  filter (\<open>None\<close> when the group takes no part, which the callback sees as \<open>undefined\<close>) and the
  text after the match. The greedy runs are the only way to match, since white space, key
  characters, the bar and the closing brace are disjoint: giving back a character never
  lets the rest of the pattern go on.
\<close>

definition match_token :: "string \<Rightarrow> (string \<times> string option \<times> string) option" where
  "match_token s =
     (if take 2 s \<noteq> ''{{'' then None
      else
        let s1 = dropWhile is_space (drop 2 s);
            key = takeWhile is_key_char s1;
            s2 = dropWhile is_key_char s1
        in if key = [] then None
           else if take 1 s2 = ''|'' then
             (let flt = takeWhile is_alpha (drop 1 s2);
                  s3 = dropWhile is_alpha (drop 1 s2)
              in if flt = [] then None else close_token key (Some flt) s3)
           else close_token key None s2)"

lemma close_token_shorter:
  "close_token key flt s = Some (k, f, rest) \<Longrightarrow> length rest < Suc (length s)"
  using length_dropWhile_le [of is_space s]
  by (auto simp: close_token_def Let_def split: if_splits)

lemma match_token_shorter:
  assumes "match_token s = Some (k, f, rest)"
  shows "length rest < length s"
proof -
  have two: "take 2 s = ''{{''"
    using assms by (auto simp: match_token_def split: if_splits)
  then have "length (take 2 s) = 2"
    by simp
  then have len: "2 \<le> length s"
    by simp
  let ?s1 = "dropWhile is_space (drop 2 s)"
  let ?s2 = "dropWhile is_key_char ?s1"
  let ?s3 = "dropWhile is_alpha (drop 1 ?s2)"
  have l1: "length ?s1 \<le> length s - 2"
    using length_dropWhile_le [of is_space "drop 2 s"] by simp
  have l2: "length ?s2 \<le> length ?s1"
    by (rule length_dropWhile_le)
  have l3: "length ?s3 \<le> length ?s2"
    using length_dropWhile_le [of is_alpha "drop 1 ?s2"] by simp
  from assms two consider
      (bar) flt where "close_token k (Some flt) ?s3 = Some (k, f, rest)"
    | (plain) "close_token k None ?s2 = Some (k, f, rest)"
    by (auto simp: match_token_def Let_def close_token_def split: if_splits)
  then show ?thesis
  proof cases
    case bar
    from close_token_shorter [OF this] l1 l2 l3 len show ?thesis by linarith
  next
    case plain
    from close_token_shorter [OF this] l1 l2 len show ?thesis by linarith
  qed
qed

text \<open>
  \<open>template.replace(re, callback)\<close> with the global flag: scan from the left; where the
  pattern matches, emit the callback's result (converted to a string, as \<open>replace\<close> does) and
  go on after the match; elsewhere copy one character and try at the next position.
\<close>

function replace_tokens :: "(string \<Rightarrow> string option \<Rightarrow> jsval) \<Rightarrow> string \<Rightarrow> string" where
  "replace_tokens f [] = []"
| "replace_tokens f (c # cs) =
     (case match_token (c # cs) of
        Some (key, flt, rest) \<Rightarrow> to_string (f key flt) @ replace_tokens f rest
      | None \<Rightarrow> c # replace_tokens f cs)"
  by pat_completeness auto
termination
proof (relation "measure (\<lambda>(f, s). length s)")
  show "wf (measure (\<lambda>(f, s). length s))"
    by simp
next
  fix f :: "string \<Rightarrow> string option \<Rightarrow> jsval" and c cs x2 key x2a flt rest
  assume "match_token (c # cs) = Some x2" "(key, x2a) = x2" "(flt, rest) = x2a"
  then have "match_token (c # cs) = Some (key, flt, rest)"
    by simp
  from match_token_shorter [OF this]
  show "((f, rest), (f, c # cs)) \<in> measure (\<lambda>(f, s). length s)"
    by simp
next
  fix f :: "string \<Rightarrow> string option \<Rightarrow> jsval" and c cs
  show "((f, cs), (f, c # cs)) \<in> measure (\<lambda>(f, s). length s)"
    by simp
qed

text \<open>
  The \<open>re.exec\<close> loop of \<open>missingFields\<close>: the first capture of every match, left to
  right. Its pattern is the one of \<open>render\<close> with the filter left uncaptured, so it matches
  the same texts.
\<close>

function scan_keys :: "string \<Rightarrow> string list" where
  "scan_keys [] = []"
| "scan_keys (c # cs) =
     (case match_token (c # cs) of
        Some (key, flt, rest) \<Rightarrow> key # scan_keys rest
      | None \<Rightarrow> scan_keys cs)"
  by pat_completeness auto
termination
proof (relation "measure length")
  show "wf (measure length)"
    by simp
next
  fix c cs x2 key x2a flt rest
  assume "match_token (c # cs) = Some x2" "(key, x2a) = x2" "(flt, rest) = x2a"
  then have "match_token (c # cs) = Some (key, flt, rest)"
    by simp
  from match_token_shorter [OF this]
  show "(rest, c # cs) \<in> measure length"
    by simp
next
  fix c :: char and cs
  show "(cs, c # cs) \<in> measure length"
    by simp
qed

section \<open>Date formatting\<close>

text \<open>
  \<open>Date\<close> and \<open>Intl.DateTimeFormat\<close> belong to the host: they depend on its time zone and
  locale. They are parameters of the model. \<open>new_Date v\<close> is \<open>new Date(v)\<close>, with \<open>None\<close> for
  an invalid date (one whose \<open>getTime()\<close> is \<open>NaN\<close>); \<open>intl_format opts d\<close> is
  \<open>new Intl.DateTimeFormat(undefined, opts).format(d)\<close>.
\<close>

record intl_options =
  opt_year :: string
  opt_month :: string
  opt_day :: string

record 'd date_env =
  new_Date :: "jsval \<Rightarrow> 'd option"
  intl_format :: "intl_options \<Rightarrow> 'd \<Rightarrow> string"

definition long_options :: intl_options where
  "long_options = \<lparr>opt_year = ''numeric'', opt_month = ''long'', opt_day = ''numeric''\<rparr>"

definition short_options :: intl_options where
  "short_options = \<lparr>opt_year = ''2-digit'', opt_month = ''short'', opt_day = ''numeric''\<rparr>"

text \<open>\<open>\d{n}\<close> at the head of \<open>s\<close>: the text after exactly \<open>n\<close> digits.\<close>

fun match_digits :: "nat \<Rightarrow> string \<Rightarrow> string option" where
  "match_digits 0 s = Some s"
| "match_digits (Suc n) [] = None"
| "match_digits (Suc n) (c # cs) = (if is_digit c then match_digits n cs else None)"

text \<open>A literal character of the pattern at the head of \<open>s\<close>.\<close>

fun match_char :: "char \<Rightarrow> string \<Rightarrow> string option" where
  "match_char x [] = None"
| "match_char x (c # cs) = (if c = x then Some cs else None)"

text \<open>\<open>/^\d{4}-\d{2}-\d{2}$/.test(s)\<close>\<close>

definition hasDash :: "string \<Rightarrow> bool" where
  "hasDash s =
     (case match_digits 4 s of
        None \<Rightarrow> False
      | Some s1 \<Rightarrow>
         (case match_char CHR ''-'' s1 of
            None \<Rightarrow> False
          | Some s2 \<Rightarrow>
             (case match_digits 2 s2 of
                None \<Rightarrow> False
              | Some s3 \<Rightarrow>
                 (case match_char CHR ''-'' s3 of
                    None \<Rightarrow> False
                  | Some s4 \<Rightarrow>
                     (case match_digits 2 s4 of
                        None \<Rightarrow> False
                      | Some s5 \<Rightarrow> s5 = [])))))"

text \<open>
  The constant \<open>d\<close> of \<open>formatDate\<close>. The test converts \<open>input\<close> to a string, and so
  does \<open>input + 'T12:00:00'\<close>.
\<close>

definition date_of_input :: "'d date_env \<Rightarrow> jsval \<Rightarrow> 'd option" where
  "date_of_input env input =
     (if hasDash (to_string input)
      then new_Date env (JStr (to_string input @ ''T12:00:00''))
      else new_Date env input)"

text \<open>
  \<open>formatDate(input, style)\<close>: a string or, for an invalid date, \<open>input\<close> itself.
\<close>

definition formatDate :: "'d date_env \<Rightarrow> jsval \<Rightarrow> string \<Rightarrow> jsval" where
  "formatDate env input style =
     (if \<not> truthy input then JStr []
      else
        case date_of_input env input of
          None \<Rightarrow> input
        | Some dt \<Rightarrow>
            JStr (if style = ''short'' then intl_format env short_options dt
                  else intl_format env long_options dt))"

section \<open>The template engine\<close>

text \<open>The callback of \<open>render\<close>; \<open>data\<close> is \<open>None\<close> for a \<open>null\<close> or \<open>undefined\<close> argument.\<close>

definition substitute :: "'d date_env \<Rightarrow> jsobject option \<Rightarrow> string \<Rightarrow> string option \<Rightarrow> jsval" where
  "substitute env data key flt =
     (let raw = (case data of
                   None \<Rightarrow> JStr []
                 | Some obj \<Rightarrow> if has_property obj key then get_property obj key else JStr [])
      in if \<not> truthy raw then JStr []
         else if prefix ''date_'' key then
           (if flt = Some ''shortdate'' then formatDate env raw ''short''
            else if flt = Some ''longdate'' then formatDate env raw ''long''
            else raw)
         else JStr (to_string raw))"

definition render :: "'d date_env \<Rightarrow> jsval \<Rightarrow> jsobject option \<Rightarrow> string" where
  "render env template data =
     (case template of
        JStr t \<Rightarrow> if t = [] then [] else replace_tokens (substitute env data) t
      | _ \<Rightarrow> [])"

text \<open>\<open>String.prototype.trim\<close>\<close>

definition trim :: "string \<Rightarrow> string" where
  "trim s = rev (dropWhile is_space (rev (dropWhile is_space s)))"

text \<open>\<open>Set.prototype.add\<close> on a set kept in insertion order.\<close>

definition set_add :: "string list \<Rightarrow> string \<Rightarrow> string list" where
  "set_add found key = (if key \<in> set found then found else found @ [key])"

text \<open>The test of the second loop of \<open>missingFields\<close> on \<open>val = data?.[key]\<close>.\<close>

definition is_missing :: "jsobject option \<Rightarrow> string \<Rightarrow> bool" where
  "is_missing data key =
     (let val = (case data of None \<Rightarrow> JUndefined | Some obj \<Rightarrow> get_property obj key)
      in val = JUndefined \<or> val = JNull \<or> trim (to_string val) = [])"

definition missingFields :: "jsval \<Rightarrow> jsobject option \<Rightarrow> string list" where
  "missingFields template data =
     (if \<not> truthy template then []
      else
        let found = foldl set_add [] (scan_keys (to_string template))
        in filter (is_missing data) found)"

section \<open>The store\<close>

text \<open>
  \<open>nowISO()\<close> reads the clock and \<open>uid()\<close> draws a fresh identifier: both are inputs of
  the operations that call them. A time stamp is kept as the clock reading (the ISO text
  of an instant orders as the instant does).
\<close>

type_synonym timestamp = nat

record folder =
  f_id :: string
  f_name :: string
  f_createdAt :: timestamp

record template =
  t_id :: string
  t_name :: string
  t_subject :: string
  t_content :: string
  t_folderId :: "string option"
  t_createdAt :: timestamp
  t_updatedAt :: timestamp

record settings =
  sampleSeeded :: "bool option"

record store =
  version :: nat
  folders :: "folder list"
  templates :: "template list"
  settings :: settings

text \<open>
  What \<open>localStorage\<close> holds under \<open>STORAGE_KEY\<close>, as \<open>safeParse\<close> reads it: \<open>None\<close> when
  the item is absent, does not parse, or parses to a falsy value. An item that parses to
  something other than a store is outside the model. \<open>JSON.stringify\<close> followed by
  \<open>JSON.parse\<close> gives a store back as it was.
\<close>

type_synonym storage = "store option"

definition initial_store :: store where
  "initial_store = \<lparr>version = 1, folders = [], templates = [], settings = \<lparr>sampleSeeded = None\<rparr>\<rparr>"

text \<open>
  \<open>getStore\<close>: the store read, and the storage afterwards (an unusable item is replaced by
  the initial store). Of the migration only the version check can fire here: the record
  type always has its lists and its settings.
\<close>

definition getStore :: "storage \<Rightarrow> store \<times> storage" where
  "getStore ls =
     (case ls of
        None \<Rightarrow> (initial_store, Some initial_store)
      | Some st \<Rightarrow> (if version st = 0 then st\<lparr>version := 1\<rparr> else st, ls))"

definition saveStore :: "store \<Rightarrow> storage \<Rightarrow> store \<times> storage" where
  "saveStore next ls = (next, Some next)"

text \<open>
  The sample's texts; its dashes (U+2014, beyond the code units of the model) are
  written as two hyphens.
\<close>

definition sample_content :: string where
  "sample_content =
     ''Hi {{first_name}},'' @ [CHR 0x0A, CHR 0x0A] @
     ''Nice speaking with {{spoke_to}} at {{company_name}}.'' @ [CHR 0x0A, CHR 0x0A] @
     ''As mentioned, compared to {{competitor}}, we can streamline your process and reduce admin. '' @ [CHR 0x0A] @
     ''Are you free on {{date_1|longdate}} or {{date_2|shortdate}} to chat?'' @ [CHR 0x0A, CHR 0x0A] @
     ''Thanks,'' @ [CHR 0x0A] @
     ''-- Your Name''"

definition sample :: "string \<Rightarrow> timestamp \<Rightarrow> timestamp \<Rightarrow> template" where
  "sample uid now1 now2 =
     \<lparr>t_id = uid,
      t_name = ''Sample -- Quick Follow-up'',
      t_subject = ''Quick follow-up with {{company_name}}'',
      t_content = sample_content,
      t_folderId = None,
      t_createdAt = now1,
      t_updatedAt = now2\<rparr>"

definition ensureSampleTemplate :: "string \<Rightarrow> timestamp \<Rightarrow> timestamp \<Rightarrow> storage \<Rightarrow> storage" where
  "ensureSampleTemplate uid now1 now2 ls =
     (let (st, ls1) = getStore ls
      in if sampleSeeded (settings st) = Some True then ls1
         else
           let st1 = (if length (templates st) = 0
                      then st\<lparr>templates := templates st @ [sample uid now1 now2]\<rparr>
                      else st);
               st2 = st1\<lparr>settings := (settings st1)\<lparr>sampleSeeded := Some True\<rparr>\<rparr>
           in snd (saveStore st2 ls1))"

subsection \<open>Array helpers\<close>

text \<open>\<open>Array.prototype.findIndex\<close>, with \<open>None\<close> for \<open>-1\<close>.\<close>

fun findIndex :: "('a \<Rightarrow> bool) \<Rightarrow> 'a list \<Rightarrow> nat option" where
  "findIndex P [] = None"
| "findIndex P (x # xs) = (if P x then Some 0 else map_option Suc (findIndex P xs))"

text \<open>\<open>xs.splice(i, 1)\<close>\<close>

definition splice1 :: "nat \<Rightarrow> 'a list \<Rightarrow> 'a list" where
  "splice1 i xs = take i xs @ drop (Suc i) xs"

text \<open>
  \<open>xs.find(P)\<close> hands out the first element that satisfies \<open>P\<close>; assigning to its fields
  changes that element of the array.
\<close>

fun update_first :: "('a \<Rightarrow> bool) \<Rightarrow> ('a \<Rightarrow> 'a) \<Rightarrow> 'a list \<Rightarrow> 'a list" where
  "update_first P g [] = []"
| "update_first P g (x # xs) = (if P x then g x # xs else x # update_first P g xs)"

text \<open>\<open>v || d\<close>\<close>

definition or_default :: "jsval \<Rightarrow> jsval \<Rightarrow> jsval" where
  "or_default v d = (if truthy v then v else d)"

text \<open>\<open>s || d\<close> on strings\<close>

definition or_string :: "string \<Rightarrow> string \<Rightarrow> string" where
  "or_string s d = (if s = [] then d else s)"

subsection \<open>Folders\<close>

definition listFolders :: "storage \<Rightarrow> folder list" where
  "listFolders ls = folders (fst (getStore ls))"

definition createFolder :: "jsval \<Rightarrow> string \<Rightarrow> timestamp \<Rightarrow> storage \<Rightarrow> folder \<times> storage" where
  "createFolder name uid now ls =
     (let (st, ls1) = getStore ls;
          folder = \<lparr>f_id = uid,
                    f_name = or_string (trim (to_string (or_default name (JStr ''New Folder'')))) ''New Folder'',
                    f_createdAt = now\<rparr>;
          st1 = st\<lparr>folders := folders st @ [folder]\<rparr>
      in (folder, snd (saveStore st1 ls1)))"

definition renameFolder :: "string \<Rightarrow> jsval \<Rightarrow> storage \<Rightarrow> bool \<times> storage" where
  "renameFolder ident newName ls =
     (let (st, ls1) = getStore ls
      in case find (\<lambda>x. f_id x = ident) (folders st) of
           None \<Rightarrow> (False, ls1)
         | Some f \<Rightarrow>
             let rename = (\<lambda>f. f\<lparr>f_name := or_string (trim (to_string (or_default newName (JStr [])))) (f_name f)\<rparr>);
                 st1 = st\<lparr>folders := update_first (\<lambda>x. f_id x = ident) rename (folders st)\<rparr>
             in (True, snd (saveStore st1 ls1)))"

text \<open>\<open>mode\<close> is compared with \<open>'deleteTemplates'\<close>; any other value takes the \<open>'keep'\<close> branch.\<close>

definition deleteFolder :: "string \<Rightarrow> string \<Rightarrow> storage \<Rightarrow> bool \<times> storage" where
  "deleteFolder ident mode ls =
     (let (st, ls1) = getStore ls
      in case findIndex (\<lambda>x. f_id x = ident) (folders st) of
           None \<Rightarrow> (False, ls1)
         | Some idx \<Rightarrow>
             let st1 = (if mode = ''deleteTemplates''
                        then st\<lparr>templates := filter (\<lambda>t. t_folderId t \<noteq> Some ident) (templates st)\<rparr>
                        else st\<lparr>templates :=
                               map (\<lambda>t. if t_folderId t = Some ident then t\<lparr>t_folderId := None\<rparr> else t)
                                 (templates st)\<rparr>);
                 st2 = st1\<lparr>folders := splice1 idx (folders st1)\<rparr>
             in (True, snd (saveStore st2 ls1)))"

text \<open>\<open>folderId || null\<close>: the empty string is falsy.\<close>

definition or_null :: "string option \<Rightarrow> string option" where
  "or_null folderId = (if folderId = Some [] then None else folderId)"

definition moveTemplatesToFolder :: "string list \<Rightarrow> string option \<Rightarrow> storage \<Rightarrow> bool \<times> storage" where
  "moveTemplatesToFolder templateIds folderId ls =
     (let (st, ls1) = getStore ls;
          st1 = st\<lparr>templates :=
                   map (\<lambda>t. if t_id t \<in> set templateIds then t\<lparr>t_folderId := or_null folderId\<rparr> else t)
                     (templates st)\<rparr>
      in (True, snd (saveStore st1 ls1)))"

subsection \<open>Templates\<close>

definition getTemplate :: "string \<Rightarrow> storage \<Rightarrow> template option" where
  "getTemplate ident ls = find (\<lambda>t. t_id t = ident) (templates (fst (getStore ls)))"

definition createTemplate ::
  "jsval \<Rightarrow> jsval \<Rightarrow> jsval \<Rightarrow> string option \<Rightarrow> string \<Rightarrow> timestamp \<Rightarrow> timestamp \<Rightarrow> storage \<Rightarrow> template \<times> storage" where
  "createTemplate name subject content folderId uid now1 now2 ls =
     (let (st, ls1) = getStore ls;
          t = \<lparr>t_id = uid,
               t_name = or_string (trim (to_string (or_default name (JStr ''Untitled Template'')))) ''Untitled Template'',
               t_subject = trim (to_string (or_default subject (JStr []))),
               t_content = trim (to_string (or_default content (JStr []))),
               t_folderId = folderId,
               t_createdAt = now1,
               t_updatedAt = now2\<rparr>;
          st1 = st\<lparr>templates := templates st @ [t]\<rparr>
      in (t, snd (saveStore st1 ls1)))"

text \<open>
  The patch object: \<open>JUndefined\<close> is a field that is absent (or explicitly \<open>undefined\<close>);
  for \<open>folderId\<close>, \<open>None\<close> is absent and \<open>Some None\<close> is \<open>null\<close>.
\<close>

record patch =
  p_name :: jsval
  p_subject :: jsval
  p_content :: jsval
  p_folderId :: "string option option"

definition apply_patch :: "patch \<Rightarrow> timestamp \<Rightarrow> template \<Rightarrow> template" where
  "apply_patch p now t =
     (let t1 = (if p_name p \<noteq> JUndefined
                then t\<lparr>t_name := or_string (trim (to_string (p_name p))) (t_name t)\<rparr> else t);
          t2 = (if p_subject p \<noteq> JUndefined
                then t1\<lparr>t_subject := trim (to_string (p_subject p))\<rparr> else t1);
          t3 = (if p_content p \<noteq> JUndefined
                then t2\<lparr>t_content := to_string (p_content p)\<rparr> else t2);
          t4 = (case p_folderId p of None \<Rightarrow> t3 | Some fid \<Rightarrow> t3\<lparr>t_folderId := fid\<rparr>)
      in t4\<lparr>t_updatedAt := now\<rparr>)"

definition updateTemplate :: "string \<Rightarrow> patch \<Rightarrow> timestamp \<Rightarrow> storage \<Rightarrow> bool \<times> storage" where
  "updateTemplate ident p now ls =
     (let (st, ls1) = getStore ls
      in case find (\<lambda>x. t_id x = ident) (templates st) of
           None \<Rightarrow> (False, ls1)
         | Some t \<Rightarrow>
             let st1 = st\<lparr>templates := update_first (\<lambda>x. t_id x = ident) (apply_patch p now) (templates st)\<rparr>
             in (True, snd (saveStore st1 ls1)))"

definition deleteTemplate :: "string \<Rightarrow> storage \<Rightarrow> bool \<times> storage" where
  "deleteTemplate ident ls =
     (let (st, ls1) = getStore ls
      in case findIndex (\<lambda>x. t_id x = ident) (templates st) of
           None \<Rightarrow> (False, ls1)
         | Some i \<Rightarrow>
             let st1 = st\<lparr>templates := splice1 i (templates st)\<rparr>
             in (True, snd (saveStore st1 ls1)))"

subsection \<open>Sequences of calls\<close>

text \<open>
  One call of the store's interface, with what it reads from the clock and from \<open>uid\<close>.
  \<open>ReadStore\<close> stands for the calls that only read (\<open>getStore\<close>, \<open>listFolders\<close>,
  \<open>listTemplates\<close>, \<open>getTemplate\<close>).
\<close>

datatype store_call =
    EnsureSampleTemplate string timestamp timestamp
  | CreateFolder jsval string timestamp
  | RenameFolder string jsval
  | DeleteFolder string string
  | MoveTemplatesToFolder "string list" "string option"
  | CreateTemplate jsval jsval jsval "string option" string timestamp timestamp
  | UpdateTemplate string patch timestamp
  | DeleteTemplate string
  | ReadStore

fun call :: "store_call \<Rightarrow> storage \<Rightarrow> storage" where
  "call (EnsureSampleTemplate uid now1 now2) ls = ensureSampleTemplate uid now1 now2 ls"
| "call (CreateFolder name uid now) ls = snd (createFolder name uid now ls)"
| "call (RenameFolder ident newName) ls = snd (renameFolder ident newName ls)"
| "call (DeleteFolder ident mode) ls = snd (deleteFolder ident mode ls)"
| "call (MoveTemplatesToFolder ids folderId) ls = snd (moveTemplatesToFolder ids folderId ls)"
| "call (CreateTemplate name subject content folderId uid now1 now2) ls =
     snd (createTemplate name subject content folderId uid now1 now2 ls)"
| "call (UpdateTemplate ident p now) ls = snd (updateTemplate ident p now ls)"
| "call (DeleteTemplate ident) ls = snd (deleteTemplate ident ls)"
| "call ReadStore ls = snd (getStore ls)"

fun calls :: "store_call list \<Rightarrow> storage \<Rightarrow> storage" where
  "calls [] ls = ls"
| "calls (c # cs) ls = calls cs (call c ls)"

section \<open>Vocabulary of the properties\<close>

text \<open>The parts of a placeholder as the token grammar names them.\<close>

definition valid_key :: "string \<Rightarrow> bool" where
  "valid_key k = (k \<noteq> [] \<and> list_all is_key_char k)"

definition valid_filter :: "string option \<Rightarrow> bool" where
  "valid_filter flt = (case flt of None \<Rightarrow> True | Some fl \<Rightarrow> fl \<noteq> [] \<and> list_all is_alpha fl)"

definition filter_text :: "string option \<Rightarrow> string" where
  "filter_text flt = (case flt of None \<Rightarrow> [] | Some fl \<Rightarrow> CHR ''|'' # fl)"

text \<open>
  A host to run examples on: its \<open>Date\<close> accepts only the local date-time form
  \<open>YYYY-MM-DDT12:00:00\<close> and keeps the day, its formatter prints the month style before
  the day.
\<close>

definition example_host :: "string date_env" where
  "example_host =
     \<lparr>new_Date = (\<lambda>v. case v of
                         JStr s \<Rightarrow> if hasDash (take 10 s) \<and> drop 10 s = ''T12:00:00''
                                   then Some (take 10 s) else None
                       | _ \<Rightarrow> None),
      intl_format = (\<lambda>opts d. opt_month opts @ '' '' @ d)\<rparr>"

text \<open>A text in which the pattern matches nowhere.\<close>

definition token_free :: "string \<Rightarrow> bool" where
  "token_free s = (scan_keys s = [])"

text \<open>The tokens the scan of \<open>render\<close> matches, left to right, each with its filter.\<close>

function scan_tokens :: "string \<Rightarrow> (string \<times> string option) list" where
  "scan_tokens [] = []"
| "scan_tokens (c # cs) =
     (case match_token (c # cs) of
        Some (key, flt, rest) \<Rightarrow> (key, flt) # scan_tokens rest
      | None \<Rightarrow> scan_tokens cs)"
  by pat_completeness auto
termination
proof (relation "measure length")
  show "wf (measure length)"
    by simp
next
  fix c cs x2 key x2a flt rest
  assume "match_token (c # cs) = Some x2" "(key, x2a) = x2" "(flt, rest) = x2a"
  then have "match_token (c # cs) = Some (key, flt, rest)"
    by simp
  from match_token_shorter [OF this]
  show "(rest, c # cs) \<in> measure length"
    by simp
next
  fix c :: char and cs
  show "(cs, c # cs) \<in> measure length"
    by simp
qed

text \<open>No token of \<open>t\<close> is replaced by a value that itself contains a token.\<close>

definition values_token_free :: "'d date_env \<Rightarrow> string \<Rightarrow> jsobject option \<Rightarrow> bool" where
  "values_token_free env t data =
     list_all (\<lambda>(key, flt). token_free (to_string (substitute env data key flt))) (scan_tokens t)"

text \<open>A text of the exact form \<open>YYYY-MM-DD\<close>.\<close>

definition is_ymd :: "string \<Rightarrow> bool" where
  "is_ymd s =
     (length s = 10 \<and> list_all is_digit (take 4 s) \<and> s ! 4 = CHR ''-'' \<and>
      list_all is_digit (take 2 (drop 5 s)) \<and> s ! 7 = CHR ''-'' \<and> list_all is_digit (drop 8 s))"

text \<open>What the \<open>'keep'\<close> branch of \<open>deleteFolder\<close> does to one template.\<close>

definition unfile :: "string \<Rightarrow> template \<Rightarrow> template" where
  "unfile ident t = (if t_folderId t = Some ident then t\<lparr>t_folderId := None\<rparr> else t)"

text \<open>The flag \<open>settings.sampleSeeded\<close> of the stored state is \<open>true\<close>.\<close>

definition seeded :: "storage \<Rightarrow> bool" where
  "seeded ls = (sampleSeeded (settings (fst (getStore ls))) = Some True)"

text \<open>A small store to run examples on: one folder holding two templates.\<close>

definition example_folder :: folder where
  "example_folder = \<lparr>f_id = ''f1'', f_name = ''Leads'', f_createdAt = 1\<rparr>"

definition example_template :: "string \<Rightarrow> string option \<Rightarrow> timestamp \<Rightarrow> template" where
  "example_template ident fid updated =
     \<lparr>t_id = ident, t_name = ''Intro'', t_subject = ''Hello'', t_content = ''Hi {{first_name}}'',
      t_folderId = fid, t_createdAt = 2, t_updatedAt = updated\<rparr>"

definition example_store :: "folder list \<Rightarrow> template list \<Rightarrow> store" where
  "example_store fs ts = \<lparr>version = 1, folders = fs, templates = ts, settings = \<lparr>sampleSeeded = Some True\<rparr>\<rparr>"

definition example_storage :: storage where
  "example_storage =
     Some (example_store [example_folder]
       [example_template ''t1'' (Some ''f1'') 2, example_template ''t2'' (Some ''f1'') 2])"

text \<open>A store without folders, after the first run.\<close>

definition seeded_store :: "template list \<Rightarrow> store" where
  "seeded_store ts = \<lparr>version = 1, folders = [], templates = ts, settings = \<lparr>sampleSeeded = Some True\<rparr>\<rparr>"

text \<open>The patch \<open>{name: "  "}\<close>, and the patch \<open>{folderId: null}\<close>.\<close>

definition blank_name_patch :: patch where
  "blank_name_patch = \<lparr>p_name = JStr ''  '', p_subject = JUndefined, p_content = JUndefined, p_folderId = None\<rparr>"

definition move_only_patch :: patch where
  "move_only_patch = \<lparr>p_name = JUndefined, p_subject = JUndefined, p_content = JUndefined, p_folderId = Some None\<rparr>"

text \<open>The distinct elements of a list, each at the place of its first appearance.\<close>

fun first_occurrences :: "string list \<Rightarrow> string list" where
  "first_occurrences [] = []"
| "first_occurrences (k # ks) = k # filter (\<lambda>x. x \<noteq> k) (first_occurrences ks)"

section \<open>The host's \<open>Date\<close> and formatter\<close>

text \<open>
  \<open>Date\<close> and \<open>Intl.DateTimeFormat\<close> are the host's, not this program's. To say what a
  rendering names, the host is written out after the ECMAScript specification: time values
  are milliseconds since the epoch in UTC, days are counted in the proleptic Gregorian
  calendar, a date-time text without offset is local time, and a formatter with the options
  year, month and day prints the local calendar day of the instant. The time zone, the
  handling of days beyond the end of a month, the parsing of other texts and the words of the
  locale are left open in \<open>host\<close>. Years are those a four-digit text can name.
\<close>

definition msPerDay :: int where
  "msPerDay = 86400000"

text \<open>\<open>InLeapYear\<close>\<close>

definition leap :: "nat \<Rightarrow> bool" where
  "leap y = (y mod 4 = 0 \<and> (y mod 400 = 0 \<or> y mod 100 \<noteq> 0))"

text \<open>\<open>DayFromYear\<close>: the day number of the first of January.\<close>

definition day_from_year :: "nat \<Rightarrow> int" where
  "day_from_year y =
     365 * (int y - 1970) + (int y - 1969) div 4 - (int y - 1901) div 100 + (int y - 1601) div 400"

definition days_in_month :: "nat \<Rightarrow> nat \<Rightarrow> nat" where
  "days_in_month y m =
     (if m = 2 then (if leap y then 29 else 28)
      else if m \<in> set [4, 6, 9, 11] then 30 else 31)"

definition days_before_month :: "nat \<Rightarrow> nat \<Rightarrow> int" where
  "days_before_month y m =
     sum_list (map (\<lambda>k. int (days_in_month y k)) (take (m - 1) [1, 2, 3, 4, 5, 6, 7, 8, 9, 10, 11, 12]))"

text \<open>
  \<open>MakeDay\<close> for a month from 1 to 12: the day number of the first of the month, plus the
  day of the month less one. A day beyond the end of the month runs into the next month.
\<close>

definition make_day :: "nat \<Rightarrow> nat \<Rightarrow> nat \<Rightarrow> int" where
  "make_day y m d = day_from_year y + days_before_month y m + int d - 1"

text \<open>\<open>MakeTime\<close> without milliseconds.\<close>

definition make_time :: "nat \<Rightarrow> nat \<Rightarrow> nat \<Rightarrow> int" where
  "make_time hh mi ss = ((int hh * 60 + int mi) * 60 + int ss) * 1000"

text \<open>
  \<open>YearFromTime\<close>: the latest year that begins on or before the day, looked for downwards
  from a year that is not too early.
\<close>

fun latest_year :: "int \<Rightarrow> nat \<Rightarrow> nat" where
  "latest_year n 0 = 0"
| "latest_year n (Suc y) = (if day_from_year (Suc y) \<le> n then Suc y else latest_year n y)"

definition year_from_day :: "int \<Rightarrow> nat" where
  "year_from_day n = latest_year n (nat ((n + 719528) div 365))"

text \<open>\<open>MonthFromTime\<close> and \<open>DateFromTime\<close>, from the day within the year.\<close>

fun split_months :: "nat \<Rightarrow> nat list \<Rightarrow> int \<Rightarrow> nat \<times> nat" where
  "split_months y [] r = (12, nat r + 1)"
| "split_months y (m # ms) r =
     (if r < int (days_in_month y m) then (m, nat r + 1)
      else split_months y ms (r - int (days_in_month y m)))"

text \<open>Year, month and day of the month of a day number.\<close>

definition civil_from_day :: "int \<Rightarrow> nat \<times> nat \<times> nat" where
  "civil_from_day n =
     (let y = year_from_day n
      in (y, split_months y [1, 2, 3, 4, 5, 6, 7, 8, 9, 10, 11] (n - day_from_year y)))"


text \<open>
  What a host is free in. \<open>offset_at t\<close> is the offset of local time from UTC at the
  instant \<open>t\<close>, \<open>offset_for_local t\<close> the offset by which the local time \<open>t\<close> is read (for a
  local time that the zone skips, the offset before the change). \<open>lenient_days\<close> is set on a
  host that takes any day up to 31 in every month, as V8 does, and clear on one that rejects
  a day the month has not. \<open>parse_other\<close> reads the texts that are not in the two forms
  below; \<open>format_date opts (y, m, d)\<close> is the locale's text for a day.
\<close>

record host =
  offset_at :: "int \<Rightarrow> int"
  offset_for_local :: "int \<Rightarrow> int"
  lenient_days :: bool
  parse_other :: "string \<Rightarrow> int option"
  format_date :: "intl_options \<Rightarrow> nat \<times> nat \<times> nat \<Rightarrow> string"

definition digit_value :: "char \<Rightarrow> nat" where
  "digit_value c = length (takeWhile (\<lambda>x. x \<noteq> c) ''0123456789'')"

definition number_of :: "string \<Rightarrow> nat" where
  "number_of s = foldl (\<lambda>a c. 10 * a + digit_value c) 0 s"

text \<open>Year, month and day written in a text of the form \<open>YYYY-MM-DD\<close>.\<close>

definition date_fields :: "string \<Rightarrow> nat \<times> nat \<times> nat" where
  "date_fields s = (number_of (take 4 s), number_of (take 2 (drop 5 s)), number_of (drop 8 s))"

text \<open>A text of the form \<open>THH:mm:ss\<close>, and what it says.\<close>

definition is_hms :: "string \<Rightarrow> bool" where
  "is_hms t =
     (length t = 9 \<and> t ! 0 = CHR ''T'' \<and> list_all is_digit (take 2 (drop 1 t)) \<and> t ! 3 = CHR '':'' \<and>
      list_all is_digit (take 2 (drop 4 t)) \<and> t ! 6 = CHR '':'' \<and> list_all is_digit (drop 7 t))"

definition time_fields :: "string \<Rightarrow> nat \<times> nat \<times> nat" where
  "time_fields t = (number_of (take 2 (drop 1 t)), number_of (take 2 (drop 4 t)), number_of (drop 7 t))"

definition valid_fields :: "bool \<Rightarrow> nat \<Rightarrow> nat \<Rightarrow> nat \<Rightarrow> bool" where
  "valid_fields lenient y m d =
     (1 \<le> m \<and> m \<le> 12 \<and> 1 \<le> d \<and> d \<le> (if lenient then 31 else days_in_month y m))"

definition valid_time :: "nat \<Rightarrow> nat \<Rightarrow> nat \<Rightarrow> bool" where
  "valid_time hh mi ss = (hh \<le> 23 \<and> mi \<le> 59 \<and> ss \<le> 59 \<or> hh = 24 \<and> mi = 0 \<and> ss = 0)"

text \<open>\<open>TimeClip\<close>\<close>

definition time_clip :: "int \<Rightarrow> int option" where
  "time_clip t = (if \<bar>t\<bar> \<le> 8640000000000000 then Some t else None)"

text \<open>\<open>UTC(t)\<close> and \<open>LocalTime(t)\<close>\<close>

definition utc_of_local :: "host \<Rightarrow> int \<Rightarrow> int" where
  "utc_of_local h t = t - offset_for_local h t"

definition local_of_utc :: "host \<Rightarrow> int \<Rightarrow> int" where
  "local_of_utc h t = t + offset_at h t"

text \<open>
  \<open>Date.parse\<close>: a date-time \<open>YYYY-MM-DDTHH:mm:ss\<close> is local time, a date alone
  \<open>YYYY-MM-DD\<close> is midnight UTC, a field out of range makes the date invalid, and any other
  text is the host's to read.
\<close>

definition host_parse :: "host \<Rightarrow> string \<Rightarrow> int option" where
  "host_parse h s =
     (if is_ymd (take 10 s) \<and> is_hms (drop 10 s) then
        (case date_fields (take 10 s) of (y, m, d) \<Rightarrow>
           case time_fields (drop 10 s) of (hh, mi, ss) \<Rightarrow>
             if valid_fields (lenient_days h) y m d \<and> valid_time hh mi ss
             then time_clip (utc_of_local h (make_day y m d * msPerDay + make_time hh mi ss))
             else None)
      else if is_ymd s then
        (case date_fields s of (y, m, d) \<Rightarrow>
           if valid_fields (lenient_days h) y m d then time_clip (make_day y m d * msPerDay) else None)
      else parse_other h s)"

text \<open>\<open>new Date(v)\<close>: a string is parsed, any other primitive is a time value.\<close>

definition host_new_Date :: "host \<Rightarrow> jsval \<Rightarrow> int option" where
  "host_new_Date h v =
     (case v of
        JUndefined \<Rightarrow> None
      | JNull \<Rightarrow> Some 0
      | JBool b \<Rightarrow> Some (if b then 1 else 0)
      | JNum n \<Rightarrow> time_clip n
      | JStr s \<Rightarrow> host_parse h s
      | JFunction n \<Rightarrow> host_parse h (to_string v)
      | JObject \<Rightarrow> host_parse h (to_string v))"

text \<open>The formatter prints the local calendar day of the instant.\<close>

definition host_format :: "host \<Rightarrow> intl_options \<Rightarrow> int \<Rightarrow> string" where
  "host_format h opts t = format_date h opts (civil_from_day (local_of_utc h t div msPerDay))"

definition host_env :: "host \<Rightarrow> int date_env" where
  "host_env h = \<lparr>new_Date = host_new_Date h, intl_format = host_format h\<rparr>"


subsection \<open>Hosts to run examples on\<close>

text \<open>The texts of the locale \<open>en-US\<close>: \<open>March 5, 2024\<close> and \<open>Mar 5, 24\<close>.\<close>

definition month_names :: "string list" where
  "month_names = [''January'', ''February'', ''March'', ''April'', ''May'', ''June'', ''July'',
     ''August'', ''September'', ''October'', ''November'', ''December'']"

definition format_en_US :: "intl_options \<Rightarrow> nat \<times> nat \<times> nat \<Rightarrow> string" where
  "format_en_US opts date =
     (case date of (y, m, d) \<Rightarrow>
        (if opt_month opts = ''short'' then take 3 (month_names ! (m - 1)) else month_names ! (m - 1))
        @ '' '' @ digits_of_nat d @ '', '' @
        (if opt_year opts = ''2-digit''
         then digits_of_nat (y mod 100 div 10) @ digits_of_nat (y mod 10)
         else digits_of_nat y))"

text \<open>A host in a zone of one offset that reads no text but the two forms.\<close>

definition fixed_zone_host :: "int \<Rightarrow> bool \<Rightarrow> host" where
  "fixed_zone_host offset lenient =
     \<lparr>offset_at = (\<lambda>t. offset), offset_for_local = (\<lambda>t. offset), lenient_days = lenient,
      parse_other = (\<lambda>s. None), format_date = format_en_US\<rparr>"

text \<open>Five hours behind UTC, lenient with days as V8 is, and strict.\<close>

definition example_v8 :: host where
  "example_v8 = fixed_zone_host (- 18000000) True"

definition example_strict :: host where
  "example_strict = fixed_zone_host (- 18000000) False"

text \<open>
  Apia, which went from ten hours behind UTC to fourteen hours ahead at 10:00 UTC on
  30 December 2011: that day did not take place there.
\<close>

definition apia_change :: int where
  "apia_change = make_day 2011 12 30 * msPerDay + 36000000"

definition apia_host :: host where
  "apia_host =
     \<lparr>offset_at = (\<lambda>t. if t < apia_change then - 36000000 else 50400000),
      offset_for_local = (\<lambda>t. if t < apia_change + 50400000 then - 36000000 else 50400000),
      lenient_days = True, parse_other = (\<lambda>s. None), format_date = format_en_US\<rparr>"

section \<open>The token scan\<close>

lemmas char_class_defs = is_space_def is_key_char_def is_alpha_def is_digit_def
lemmas token_defs = match_token_def close_token_def char_class_defs
lemmas lookup_defs = has_property_def get_property_def Object_prototype_def
lemmas render_defs = render_def substitute_def token_defs lookup_defs

lemma takeWhile_run:
  "list_all P xs \<Longrightarrow> ys = [] \<or> \<not> P (hd ys) \<Longrightarrow> takeWhile P (xs @ ys) = xs"
  by (induction xs) (auto simp: takeWhile_eq_Nil_iff)

lemma dropWhile_run:
  "list_all P xs \<Longrightarrow> ys = [] \<or> \<not> P (hd ys) \<Longrightarrow> dropWhile P (xs @ ys) = ys"
  by (induction xs) (auto simp: dropWhile_eq_self_iff)

lemma key_char_not_space: "is_key_char c \<Longrightarrow> \<not> is_space c"
  by (auto simp: char_class_defs)

lemma brace_classes:
  "\<not> is_space CHR ''}''" "\<not> is_key_char CHR ''}''" "\<not> is_alpha CHR ''}''"
  "\<not> is_space CHR ''|''" "\<not> is_key_char CHR ''|''" "\<not> is_alpha CHR ''|''"
  by (simp_all add: char_class_defs)

lemma space_classes: "is_space c \<Longrightarrow> \<not> is_key_char c \<and> \<not> is_alpha c \<and> c \<noteq> CHR ''|'' \<and> c \<noteq> CHR ''}''"
  by (auto simp: char_class_defs)

lemma close_token_intro:
  "list_all is_space w \<Longrightarrow> close_token k f (w @ ''}}'' @ rest) = Some (k, f, rest)"
  by (simp add: close_token_def dropWhile_run brace_classes)

lemma close_token_elim:
  assumes "close_token k f s = Some (k', f', rest)"
  shows "k' = k \<and> f' = f \<and> (\<exists>w. list_all is_space w \<and> s = w @ ''}}'' @ rest)"
proof -
  let ?w = "takeWhile is_space s"
  let ?s' = "dropWhile is_space s"
  from assms have t: "take 2 ?s' = ''}}''" and r: "rest = drop 2 ?s'" and kf: "k' = k" "f' = f"
    by (auto simp: close_token_def Let_def split: if_splits)
  have "s = ?w @ ?s'" by simp
  also have "?s' = take 2 ?s' @ drop 2 ?s'" by simp
  finally have "s = ?w @ ''}}'' @ rest" using t r by simp
  moreover have "list_all is_space ?w"
    by (simp add: list_all_iff) (meson set_takeWhileD)
  ultimately show ?thesis using kf by blast
qed

lemma match_token_intro:
  assumes w1: "list_all is_space w1" and k: "valid_key k" and f: "valid_filter flt"
    and w2: "list_all is_space w2"
  shows "match_token (''{{'' @ w1 @ k @ filter_text flt @ w2 @ ''}}'' @ rest) = Some (k, flt, rest)"
proof -
  let ?tail = "w2 @ ''}}'' @ rest"
  let ?after = "filter_text flt @ ?tail"
  have hd_tail: "\<not> is_key_char (hd ?tail) \<and> \<not> is_alpha (hd ?tail) \<and> hd ?tail \<noteq> CHR ''|''"
    using w2 by (cases w2) (auto simp: brace_classes space_classes)
  have hd_after: "\<not> is_key_char (hd ?after)"
    using hd_tail by (cases flt) (auto simp: filter_text_def brace_classes)
  from k obtain c k' where kc: "k = c # k'" and c: "is_key_char c"
    by (cases k) (auto simp: valid_key_def)
  have s1: "dropWhile is_space (w1 @ k @ ?after) = k @ ?after"
    using w1 c by (simp add: dropWhile_run kc key_char_not_space)
  have key: "takeWhile is_key_char (k @ ?after) = k"
    using k hd_after by (simp add: takeWhile_run valid_key_def)
  have s2: "dropWhile is_key_char (k @ ?after) = ?after"
    using k hd_after by (simp add: dropWhile_run valid_key_def)
  show ?thesis
  proof (cases flt)
    case None
    have "take 1 ?tail \<noteq> ''|''"
      using hd_tail by (cases w2) auto
    then show ?thesis
      using None k s1 key s2 close_token_intro [OF w2, of k None rest]
      by (simp add: match_token_def filter_text_def valid_key_def)
  next
    case (Some fl)
    with f have fl: "fl \<noteq> []" "list_all is_alpha fl"
      by (simp_all add: valid_filter_def)
    have f1: "takeWhile is_alpha (fl @ ?tail) = fl"
      using fl hd_tail by (simp add: takeWhile_run)
    have f2: "dropWhile is_alpha (fl @ ?tail) = ?tail"
      using fl hd_tail by (simp add: dropWhile_run)
    show ?thesis
      using Some k s1 key s2 f1 f2 fl close_token_intro [OF w2, of k "Some fl" rest]
      by (simp add: match_token_def filter_text_def valid_key_def)
  qed
qed

lemma list_all_takeWhile: "list_all P (takeWhile P xs)"
  by (induction xs) auto

lemma match_token_elim:
  assumes "match_token s = Some (k, flt, rest)"
  shows "\<exists>w1 w2. list_all is_space w1 \<and> list_all is_space w2 \<and> valid_key k \<and> valid_filter flt \<and>
           s = ''{{'' @ w1 @ k @ filter_text flt @ w2 @ ''}}'' @ rest"
proof -
  let ?w1 = "takeWhile is_space (drop 2 s)"
  let ?s1 = "dropWhile is_space (drop 2 s)"
  let ?key = "takeWhile is_key_char ?s1"
  let ?s2 = "dropWhile is_key_char ?s1"
  let ?fl = "takeWhile is_alpha (drop 1 ?s2)"
  let ?s3 = "dropWhile is_alpha (drop 1 ?s2)"
  from assms have two: "take 2 s = ''{{''" and key: "?key \<noteq> []"
    by (auto simp: match_token_def Let_def split: if_splits)
  have "s = take 2 s @ drop 2 s" by simp
  also have "drop 2 s = ?w1 @ ?s1" by simp
  also have "?s1 = ?key @ ?s2" by simp
  finally have s: "s = ''{{'' @ ?w1 @ ?key @ ?s2" using two by simp
  have vk: "valid_key ?key"
    using key by (simp add: valid_key_def list_all_takeWhile)
  show ?thesis
  proof (cases "take 1 ?s2 = ''|''")
    case True
    with assms two key have fl: "?fl \<noteq> []" and c: "close_token ?key (Some ?fl) ?s3 = Some (k, flt, rest)"
      by (auto simp: match_token_def Let_def split: if_splits)
    from close_token_elim [OF c] obtain w2 where
      kf: "k = ?key" "flt = Some ?fl" and w2: "list_all is_space w2" and s3: "?s3 = w2 @ ''}}'' @ rest"
      by auto
    have d: "?s2 = CHR ''|'' # drop 1 ?s2"
      using True by (cases ?s2) auto
    have e: "drop 1 ?s2 = ?fl @ (w2 @ ''}}'' @ rest)"
      by (metis s3 takeWhile_dropWhile_id)
    have "?s2 = CHR ''|'' # (?fl @ (w2 @ ''}}'' @ rest))"
      using d e by metis
    then have "?s2 = filter_text flt @ w2 @ ''}}'' @ rest"
      using kf by (simp add: filter_text_def)
    then have "s = ''{{'' @ ?w1 @ k @ filter_text flt @ w2 @ ''}}'' @ rest"
      using s kf by metis
    moreover have "valid_filter flt"
      using kf fl by (simp add: valid_filter_def list_all_takeWhile)
    ultimately show ?thesis
      using vk kf w2 list_all_takeWhile [of is_space "drop 2 s"] by blast
  next
    case False
    with assms two key have c: "close_token ?key None ?s2 = Some (k, flt, rest)"
      by (auto simp: match_token_def Let_def split: if_splits)
    from close_token_elim [OF c] obtain w2 where
      kf: "k = ?key" "flt = None" and w2: "list_all is_space w2" and s2: "?s2 = w2 @ ''}}'' @ rest"
      by auto
    have "s = ''{{'' @ ?w1 @ k @ filter_text flt @ w2 @ ''}}'' @ rest"
      using s kf s2 by (simp add: filter_text_def)
    moreover have "valid_filter flt"
      using kf by (simp add: valid_filter_def)
    ultimately show ?thesis
      using vk kf w2 list_all_takeWhile [of is_space "drop 2 s"] by blast
  qed
qed

text \<open>The matcher accepts exactly the texts of the token grammar.\<close>

lemma match_token_grammar:
  "match_token s = Some (k, flt, rest) \<longleftrightarrow>
     (\<exists>w1 w2. list_all is_space w1 \<and> list_all is_space w2 \<and> valid_key k \<and> valid_filter flt \<and>
        s = ''{{'' @ w1 @ k @ filter_text flt @ w2 @ ''}}'' @ rest)"
proof
  assume "match_token s = Some (k, flt, rest)"
  then show "\<exists>w1 w2. list_all is_space w1 \<and> list_all is_space w2 \<and> valid_key k \<and> valid_filter flt \<and>
        s = ''{{'' @ w1 @ k @ filter_text flt @ w2 @ ''}}'' @ rest"
    by (rule match_token_elim)
next
  assume "\<exists>w1 w2. list_all is_space w1 \<and> list_all is_space w2 \<and> valid_key k \<and> valid_filter flt \<and>
        s = ''{{'' @ w1 @ k @ filter_text flt @ w2 @ ''}}'' @ rest"
  then obtain w1 w2 where "list_all is_space w1" "list_all is_space w2" "valid_key k" "valid_filter flt"
    and s: "s = ''{{'' @ w1 @ k @ filter_text flt @ w2 @ ''}}'' @ rest"
    by blast
  then show "match_token s = Some (k, flt, rest)"
    unfolding s by (intro match_token_intro)
qed

lemma render_at_token:
  assumes "match_token s = Some (k, flt, rest)"
  shows "render env (JStr s) data = to_string (substitute env data k flt) @ render env (JStr rest) data"
proof -
  from match_token_shorter [OF assms] obtain c cs where s: "s = c # cs"
    by (cases s) auto
  show ?thesis
    using assms by (cases rest) (simp_all add: render_def s)
qed

lemma render_at_other:
  assumes "match_token (c # cs) = None"
  shows "render env (JStr (c # cs)) data = c # render env (JStr cs) data"
  using assms by (cases cs) (simp_all add: render_def)

lemma scan_keys_none_replace: "scan_keys s = [] \<Longrightarrow> replace_tokens f s = s"
  by (induction s rule: scan_keys.induct) (auto split: option.splits)

text \<open>The digit matcher on a count written as a numeral.\<close>

lemma match_digits_numeral [simp]:
  "match_digits (numeral n) [] = None"
  "match_digits (numeral n) (c # cs) = (if is_digit c then match_digits (pred_numeral n) cs else None)"
  by (simp_all add: numeral_eq_Suc)

section \<open>Rendering one token\<close>

lemma substitute_no_data: "substitute env None key flt = JStr []"
  by (simp add: substitute_def)

lemma substitute_absent:
  "\<not> has_property obj key \<Longrightarrow> substitute env (Some obj) key flt = JStr []"
  by (simp add: substitute_def)

lemma substitute_falsy:
  "\<not> truthy (get_property obj key) \<Longrightarrow> substitute env (Some obj) key flt = JStr []"
  by (simp add: substitute_def)

lemma match_key_only:
  "valid_key k \<Longrightarrow> match_token (''{{'' @ k @ ''}}'' @ rest) = Some (k, None, rest)"
  using match_token_intro [of "[]" k None "[]" rest]
  by (simp add: valid_filter_def filter_text_def)

lemma render_key_only:
  assumes "valid_key k"
  shows "render env (JStr (''{{'' @ k @ ''}}'')) data = to_string (substitute env data k None)"
  using render_at_token [OF match_key_only [OF assms, of "[]"], of env data]
  by (simp add: render_def)

lemma render_absent_key:
  assumes "valid_key k" and "map_of Object_prototype k = None"
  shows "render env (JStr (''{{'' @ k @ ''}}'')) (Some Map.empty) = []"
  using assms by (subst render_key_only) (simp_all add: substitute_absent has_property_def)

lemma render_plain_value:
  assumes "valid_key k" and "\<not> prefix ''date_'' k"
  shows "render env (JStr (''{{'' @ k @ ''}}'')) (Some [k \<mapsto> JStr v]) = v"
  using assms by (subst render_key_only) (simp_all add: substitute_def has_property_def get_property_def Let_def)

text \<open>
  Claim C1. A token whose key has no entry in the data is to be replaced by the empty
  string, so that \<open>render("{{K}}", {})\<close> is empty for every key \<open>K\<close>. The code tests
  \<open>key in data\<close>, which is also true of the names a plain object inherits: for the key
  \<open>constructor\<close> and the empty object it substitutes the text of the inherited function.
\<close>

theorem render_inherited_key:
  "render example_host (JStr ''{{constructor}}'') (Some Map.empty) =
     ''function Object() { [native code] }''"
  by (simp add: render_defs)

subsection \<open>The keys \<open>missingFields\<close> reports\<close>

lemma set_first_occurrences: "set (first_occurrences ks) = set ks"
  by (induction ks) auto

lemma distinct_first_occurrences: "distinct (first_occurrences ks)"
  by (induction ks) auto

lemma found_keys_from:
  "foldl set_add acc ks = acc @ filter (\<lambda>x. x \<notin> set acc) (first_occurrences ks)"
proof (induction ks arbitrary: acc)
  case Nil
  show ?case by simp
next
  case (Cons k ks)
  show ?case
  proof (cases "k \<in> set acc")
    case True
    then have "filter (\<lambda>x. x \<notin> set acc) (filter (\<lambda>x. x \<noteq> k) (first_occurrences ks))
        = filter (\<lambda>x. x \<notin> set acc) (first_occurrences ks)"
      by (auto intro: filter_cong)
    with True Cons.IH [of acc] show ?thesis
      by (simp add: set_add_def)
  next
    case False
    have "filter (\<lambda>x. x \<notin> set (acc @ [k])) (first_occurrences ks)
        = filter (\<lambda>x. x \<notin> set acc) (filter (\<lambda>x. x \<noteq> k) (first_occurrences ks))"
      by (auto intro: filter_cong)
    with False Cons.IH [of "acc @ [k]"] show ?thesis
      by (simp add: set_add_def)
  qed
qed

lemma found_keys: "foldl set_add [] ks = first_occurrences ks"
  by (simp add: found_keys_from)

lemma missingFields_keys:
  "truthy template \<Longrightarrow>
   missingFields template data
     = filter (is_missing data) (first_occurrences (scan_keys (to_string template)))"
  by (simp add: missingFields_def found_keys)

lemma scan_keys_tokens: "scan_keys s = map fst (scan_tokens s)"
  by (induction s rule: scan_keys.induct) (auto split: option.splits)

lemma is_missing_own:
  assumes "map_of Object_prototype key = None"
  shows "is_missing (Some obj) key \<longleftrightarrow>
           (case obj key of
              None \<Rightarrow> True
            | Some v \<Rightarrow> v = JUndefined \<or> v = JNull \<or> trim (to_string v) = [])"
  using assms by (simp add: is_missing_def get_property_def split: option.splits)

lemma missingFields_example:
  "missingFields (JStr ''Hi {{first_name}}, re {{company_name}}'') (Some [''first_name'' \<mapsto> JStr ''Sam''])
     = [''company_name'']"
  by (simp add: missingFields_def set_add_def is_missing_def trim_def token_defs lookup_defs)

lemma missingFields_filters_once:
  "missingFields (JStr ''{{date_1|longdate}} {{b}} {{date_1|shortdate}} {{date_1}}'') (Some Map.empty)
     = [''date_1'', ''b'']"
  by (simp add: missingFields_def set_add_def is_missing_def trim_def token_defs lookup_defs)

text \<open>
  Claim C3. \<open>missingFields\<close> is to return the keys of the template whose value in the data
  is absent. The code reads \<open>data?.[key]\<close>, which finds inherited properties too: the key
  \<open>constructor\<close> has no entry in the empty object, and is not reported.
\<close>

theorem missingFields_inherited_key:
  "missingFields (JStr ''{{constructor}}'') (Some Map.empty) = []"
  by (simp add: missingFields_def set_add_def is_missing_def trim_def token_defs lookup_defs)

section \<open>Rendering twice\<close>

lemma token_free_Cons:
  "token_free (c # cs) \<longleftrightarrow> match_token (c # cs) = None \<and> token_free cs"
  by (simp add: token_free_def split: option.splits)

lemma token_free_iff: "token_free s \<longleftrightarrow> (\<forall>i < length s. match_token (drop i s) = None)"
proof (induction s)
  case Nil
  show ?case by (simp add: token_free_def)
next
  case (Cons c cs)
  have "(\<forall>i < length (c # cs). match_token (drop i (c # cs)) = None)
      \<longleftrightarrow> match_token (c # cs) = None \<and> (\<forall>i < length cs. match_token (drop i cs) = None)"
    by (simp add: All_less_Suc2)
  with Cons show ?case
    by (simp only: token_free_Cons)
qed

text \<open>
  Claim C9, as stated: if no token of \<open>t\<close> is replaced by a value containing a token,
  rendering the output again changes nothing. It fails: in \<open>{{{{a}}b}}\<close> the only token
  is \<open>{{a}}\<close>, its value is the empty string, and taking it out joins the text around it
  into the token \<open>{{b}}\<close>, which a second rendering replaces.
\<close>

theorem render_twice_counterexample:
  "values_token_free example_host ''{{{{a}}b}}'' (Some [''b'' \<mapsto> JStr ''x'']) \<and>
   render example_host (JStr ''{{{{a}}b}}'') (Some [''b'' \<mapsto> JStr ''x'']) = ''{{b}}'' \<and>
   render example_host (JStr (render example_host (JStr ''{{{{a}}b}}'') (Some [''b'' \<mapsto> JStr ''x''])))
     (Some [''b'' \<mapsto> JStr ''x'']) = ''x''"
  by (simp add: values_token_free_def token_free_def render_defs)

text \<open>
  Claim C9, amended: rendering is idempotent whenever the first output contains no
  placeholder token.
\<close>

theorem render_idempotent_token_free:
  assumes "token_free (render env (JStr t) data)"
  shows "render env (JStr (render env (JStr t) data)) data = render env (JStr t) data"
  using assms by (simp add: render_def [of env "JStr (render env (JStr t) data)"] token_free_def scan_keys_none_replace)

theorem render_idempotent_token_free_witness:
  "token_free (render example_host (JStr ''Hi {{a}}'') (Some [''a'' \<mapsto> JStr ''x''])) \<and>
   render example_host (JStr (render example_host (JStr ''Hi {{a}}'') (Some [''a'' \<mapsto> JStr ''x''])))
     (Some [''a'' \<mapsto> JStr ''x'']) = ''Hi x''"
proof -
  have r: "render example_host (JStr ''Hi {{a}}'') (Some [''a'' \<mapsto> JStr ''x'']) = ''Hi x''"
    by (simp add: render_defs)
  have h: "token_free (render example_host (JStr ''Hi {{a}}'') (Some [''a'' \<mapsto> JStr ''x'']))"
    by (simp add: r token_free_def token_defs)
  from render_idempotent_token_free [OF h] h r show ?thesis
    by simp
qed

section \<open>Case sensitivity\<close>

text \<open>
  Claim C10. The pattern accepts upper-case letters, but the lookup and the filter
  dispatch compare exactly: on data whose only key is \<open>first_name\<close> the token
  \<open>{{FIRST_NAME}}\<close> is replaced by the empty string, and with the filter \<open>LONGDATE\<close> a
  non-empty value of \<open>date_1\<close> is substituted as it is.
\<close>

theorem case_sensitive_lookup:
  assumes "dom obj = {''first_name''}" and "truthy v"
  shows "render env (JStr ''{{FIRST_NAME}}'') (Some obj) = [] \<and>
         render env (JStr ''{{date_1|LONGDATE}}'') (Some [''date_1'' \<mapsto> v]) = to_string v"
proof -
  have "''FIRST_NAME'' \<notin> dom obj"
    using assms(1) by simp
  then have "obj ''FIRST_NAME'' = None"
    by blast
  then have a: "render env (JStr ''{{FIRST_NAME}}'') (Some obj) = []"
    by (simp add: render_defs)
  have b: "render env (JStr ''{{date_1|LONGDATE}}'') (Some [''date_1'' \<mapsto> v]) = to_string v"
    using assms(2) by (simp add: render_defs)
  from a b show ?thesis ..
qed

theorem case_sensitive_lookup_witness:
  "dom [''first_name'' \<mapsto> JStr ''Sam''] = {''first_name''} \<and> truthy (JStr ''2024-03-05'') \<and>
   render example_host (JStr ''{{FIRST_NAME}}'') (Some [''first_name'' \<mapsto> JStr ''Sam'']) = [] \<and>
   render example_host (JStr ''{{date_1|LONGDATE}}'') (Some [''date_1'' \<mapsto> JStr ''2024-03-05'']) = ''2024-03-05'' \<and>
   render example_host (JStr ''{{date_1|longdate}}'') (Some [''date_1'' \<mapsto> JStr ''2024-03-05'']) = ''long 2024-03-05''"
proof -
  have d: "dom [''first_name'' \<mapsto> JStr ''Sam''] = {''first_name''}"
    by simp
  have t: "truthy (JStr ''2024-03-05'')"
    by simp
  have l: "render example_host (JStr ''{{date_1|longdate}}'') (Some [''date_1'' \<mapsto> JStr ''2024-03-05'']) = ''long 2024-03-05''"
    by (simp add: render_defs formatDate_def date_of_input_def hasDash_def example_host_def long_options_def)
  from case_sensitive_lookup [OF d t, of example_host] d t l show ?thesis
    by simp
qed

section \<open>Date parsing\<close>





subsection \<open>The calendar\<close>

lemma latest_year_numeral [simp]:
  "latest_year n (numeral k) =
     (if day_from_year (numeral k) \<le> n then numeral k else latest_year n (pred_numeral k))"
  by (simp add: numeral_eq_Suc)














subsection \<open>Local noon\<close>

lemmas calendar_defs = make_day_def day_from_year_def days_before_month_def days_in_month_def leap_def
  civil_from_day_def year_from_day_def msPerDay_def make_time_def

lemmas host_defs = host_env_def host_new_Date_def host_parse_def host_format_def date_fields_def
  time_fields_def number_of_def digit_value_def is_hms_def is_ymd_def is_digit_def valid_fields_def
  valid_time_def time_clip_def utc_of_local_def local_of_utc_def format_en_US_def month_names_def











lemmas example_host_defs = example_v8_def example_strict_def fixed_zone_host_def apia_host_def apia_change_def

lemmas formatDate_defs = formatDate_def date_of_input_def hasDash_def long_options_def short_options_def
  digits_of_nat.simps


lemma date_only_form_rolls_over:
  "map_option (host_format example_v8 long_options) (host_new_Date example_v8 (JStr ''2024-03-05''))
     = Some ''March 4, 2024''"
  by (simp add: example_host_defs host_defs calendar_defs formatDate_defs)




section \<open>Filters\<close>

text \<open>
  Claim C2. Where the scan matches a token whose value \<open>raw\<close> in the data is non-empty:
  a key that does not begin with \<open>date_\<close> is replaced by the value as a string, whatever
  the filter; a key that begins with \<open>date_\<close> is replaced by the date in the short
  format (two-digit year, short month, numeric day) under \<open>shortdate\<close>, in the long
  format (numeric year, long month, numeric day) under \<open>longdate\<close>, and by the value
  itself with no filter or any other one. A value that is no date stays as it is.
\<close>

theorem render_filter_dispatch:
  assumes "match_token s = Some (key, flt, rest)"
    and "has_property obj key" and "get_property obj key = raw" and "truthy raw"
  shows "render env (JStr s) (Some obj) =
           (if \<not> prefix ''date_'' key then to_string raw
            else if flt = Some ''shortdate'' then
              (case date_of_input env raw of
                 Some dt \<Rightarrow>
                   intl_format env \<lparr>opt_year = ''2-digit'', opt_month = ''short'', opt_day = ''numeric''\<rparr> dt
               | None \<Rightarrow> to_string raw)
            else if flt = Some ''longdate'' then
              (case date_of_input env raw of
                 Some dt \<Rightarrow>
                   intl_format env \<lparr>opt_year = ''numeric'', opt_month = ''long'', opt_day = ''numeric''\<rparr> dt
               | None \<Rightarrow> to_string raw)
            else to_string raw)
           @ render env (JStr rest) (Some obj)"
proof -
  have "to_string (substitute env (Some obj) key flt) =
           (if \<not> prefix ''date_'' key then to_string raw
            else if flt = Some ''shortdate'' then
              (case date_of_input env raw of
                 Some dt \<Rightarrow> intl_format env short_options dt
               | None \<Rightarrow> to_string raw)
            else if flt = Some ''longdate'' then
              (case date_of_input env raw of
                 Some dt \<Rightarrow> intl_format env long_options dt
               | None \<Rightarrow> to_string raw)
            else to_string raw)"
    using assms(2-4) by (simp add: substitute_def formatDate_def split: option.splits)
  then show ?thesis
    unfolding render_at_token [OF assms(1)] short_options_def long_options_def by simp
qed

theorem render_filter_dispatch_witness:
  "render example_host
     (JStr ''{{company_name|shortdate}} {{date_1|shortdate}} {{date_1|longdate}} {{date_1}} {{date_1|iso}}'')
     (Some [''company_name'' \<mapsto> JStr ''Acme'', ''date_1'' \<mapsto> JStr ''2024-03-05''])
   = ''Acme short 2024-03-05 long 2024-03-05 2024-03-05 2024-03-05''"
proof -
  let ?obj = "[''company_name'' \<mapsto> JStr ''Acme'', ''date_1'' \<mapsto> JStr ''2024-03-05'']"
  let ?r = "\<lambda>s. render example_host (JStr s) (Some ?obj)"
  have d: "date_of_input example_host (JStr ''2024-03-05'') = Some ''2024-03-05''"
    by (simp add: date_of_input_def hasDash_def example_host_def is_digit_def)
  have g: "get_property ?obj ''date_1'' = JStr ''2024-03-05''" "has_property ?obj ''date_1''"
    "get_property ?obj ''company_name'' = JStr ''Acme''" "has_property ?obj ''company_name''"
    by (simp_all add: lookup_defs)
  have t: "truthy (JStr ''2024-03-05'')" "truthy (JStr ''Acme'')"
    by simp_all
  have m1: "match_token ''{{company_name|shortdate}} {{date_1|shortdate}} {{date_1|longdate}} {{date_1}} {{date_1|iso}}''
      = Some (''company_name'', Some ''shortdate'', '' {{date_1|shortdate}} {{date_1|longdate}} {{date_1}} {{date_1|iso}}'')"
    by (simp add: token_defs)
  have m2: "match_token ''{{date_1|shortdate}} {{date_1|longdate}} {{date_1}} {{date_1|iso}}''
      = Some (''date_1'', Some ''shortdate'', '' {{date_1|longdate}} {{date_1}} {{date_1|iso}}'')"
    by (simp add: token_defs)
  have m3: "match_token ''{{date_1|longdate}} {{date_1}} {{date_1|iso}}''
      = Some (''date_1'', Some ''longdate'', '' {{date_1}} {{date_1|iso}}'')"
    by (simp add: token_defs)
  have m4: "match_token ''{{date_1}} {{date_1|iso}}'' = Some (''date_1'', None, '' {{date_1|iso}}'')"
    by (simp add: token_defs)
  have m5: "match_token ''{{date_1|iso}}'' = Some (''date_1'', Some ''iso'', [])"
    by (simp add: token_defs)
  have sp: "\<And>cs. ?r (CHR '' '' # cs) = CHR '' '' # ?r cs"
    by (rule render_at_other) (simp add: token_defs)
  have e: "?r [] = []"
    by (simp add: render_def)
  have s1: "?r ''{{date_1|iso}}'' = ''2024-03-05''"
    using render_filter_dispatch [OF m5 g(2) g(1) t(1), of example_host] e by simp
  have s2: "?r ''{{date_1}} {{date_1|iso}}'' = ''2024-03-05 2024-03-05''"
    using render_filter_dispatch [OF m4 g(2) g(1) t(1), of example_host] sp s1 by simp
  have s3: "?r ''{{date_1|longdate}} {{date_1}} {{date_1|iso}}'' = ''long 2024-03-05 2024-03-05 2024-03-05''"
    using render_filter_dispatch [OF m3 g(2) g(1) t(1), of example_host] sp s2 d
    by (simp add: example_host_def)
  have s4: "?r ''{{date_1|shortdate}} {{date_1|longdate}} {{date_1}} {{date_1|iso}}''
      = ''short 2024-03-05 long 2024-03-05 2024-03-05 2024-03-05''"
    using render_filter_dispatch [OF m2 g(2) g(1) t(1), of example_host] sp s3 d
    by (simp add: example_host_def)
  show ?thesis
    using render_filter_dispatch [OF m1 g(4) g(3) t(2), of example_host] sp s4
    by simp
qed

section \<open>Reading the store, and arrays\<close>

lemma getStore_version:
  "version (fst (getStore ls)) \<noteq> 0" "0 < version (fst (getStore ls))"
  by (simp_all add: getStore_def initial_store_def split: option.splits)

lemma getStore_again: "fst (getStore (snd (getStore ls))) = fst (getStore ls)"
  by (simp add: getStore_def initial_store_def split: option.splits)

lemma getStore_kept: "ls \<noteq> None \<Longrightarrow> snd (getStore ls) = ls"
  by (simp add: getStore_def split: option.splits)

lemma findIndex_None_iff: "findIndex P xs = None \<longleftrightarrow> find P xs = None"
  by (induction xs) auto

lemma findIndex_Some:
  "findIndex P xs = Some i \<Longrightarrow> i < length xs \<and> P (xs ! i) \<and> find P xs = Some (xs ! i)"
  by (induction xs arbitrary: i) (auto split: if_splits)

lemma splice1_remove1:
  "findIndex P xs = Some i \<Longrightarrow> splice1 i xs = remove1 (xs ! i) xs"
proof (induction xs arbitrary: i)
  case Nil
  then show ?case by simp
next
  case (Cons x xs)
  show ?case
  proof (cases "P x")
    case True
    with Cons.prems show ?thesis by (simp add: splice1_def)
  next
    case False
    with Cons.prems obtain j where j: "findIndex P xs = Some j" "i = Suc j"
      by auto
    from findIndex_Some [OF j(1)] False have "xs ! j \<noteq> x"
      by auto
    with Cons.IH [OF j(1)] j show ?thesis
      by (simp add: splice1_def)
  qed
qed

lemma remove1_distinct_key:
  "distinct (map f xs) \<Longrightarrow> x \<in> set xs \<Longrightarrow> f x \<notin> f ` set (remove1 x xs)"
  by (induction xs) (auto simp: image_iff dest: notin_set_remove1)

lemma update_first_nth:
  "findIndex P xs = Some i \<Longrightarrow> update_first P g xs = xs[i := g (xs ! i)]"
  by (induction xs arbitrary: i) (auto split: if_splits)

lemmas example_defs = example_folder_def example_template_def example_store_def example_storage_def

lemmas store_defs = getStore_def saveStore_def deleteFolder_def moveTemplatesToFolder_def
  updateTemplate_def deleteTemplate_def ensureSampleTemplate_def createFolder_def renameFolder_def
  createTemplate_def splice1_def or_null_def or_default_def or_string_def apply_patch_def

section \<open>Deleting a folder\<close>

lemma deleteFolder_not_found:
  assumes "findIndex (\<lambda>x. f_id x = ident) (folders (fst (getStore ls))) = None"
  shows "deleteFolder ident mode ls = (False, snd (getStore ls))"
  using assms by (simp add: deleteFolder_def split_beta)

lemma deleteFolder_found:
  assumes "findIndex (\<lambda>x. f_id x = ident) (folders (fst (getStore ls))) = Some i"
  shows "deleteFolder ident mode ls =
           (True, Some ((fst (getStore ls))
              \<lparr>templates := (if mode = ''deleteTemplates''
                             then filter (\<lambda>t. t_folderId t \<noteq> Some ident) (templates (fst (getStore ls)))
                             else map (unfile ident) (templates (fst (getStore ls)))),
               folders := splice1 i (folders (fst (getStore ls)))\<rparr>))"
  using assms by (simp add: deleteFolder_def split_beta saveStore_def Let_def unfile_def)

text \<open>
  Claim C4. \<open>deleteFolder\<close> returns \<open>false\<close> and leaves the store as it was when no
  folder has the identifier. Otherwise it returns \<open>true\<close> and removes the folder (the
  first one with the identifier, the only one when identifiers are distinct); with
  \<open>'deleteTemplates'\<close> the templates of the folder are removed and the others kept, with
  \<open>'keep'\<close> (or any other mode) every template stays and those of the folder become
  unfiled. Afterwards no template refers to the folder.
\<close>

theorem deleteFolder_cascade:
  assumes run: "deleteFolder ident mode ls = (ok, ls')"
    and st: "st = fst (getStore ls)" and st': "st' = fst (getStore ls')"
  shows "(find (\<lambda>f. f_id f = ident) (folders st) = None \<longrightarrow>
            \<not> ok \<and> st' = st \<and> (ls \<noteq> None \<longrightarrow> ls' = ls))
       \<and> (\<forall>f. find (\<lambda>f. f_id f = ident) (folders st) = Some f \<longrightarrow>
            ok \<and> folders st' = remove1 f (folders st)
            \<and> (distinct (map f_id (folders st)) \<longrightarrow> ident \<notin> f_id ` set (folders st'))
            \<and> (mode \<noteq> ''deleteTemplates'' \<longrightarrow> templates st' = map (unfile ident) (templates st))
            \<and> (mode = ''deleteTemplates'' \<longrightarrow>
                  templates st' = filter (\<lambda>t. t_folderId t \<noteq> Some ident) (templates st))
            \<and> Some ident \<notin> t_folderId ` set (templates st')
            \<and> version st' = version st \<and> settings st' = settings st)"
proof (cases "findIndex (\<lambda>x. f_id x = ident) (folders st)")
  case None
  then have nf: "find (\<lambda>f. f_id f = ident) (folders st) = None"
    by (simp add: findIndex_None_iff)
  from None run have r: "ok = False" "ls' = snd (getStore ls)"
    unfolding st by (simp_all add: deleteFolder_not_found)
  have "st' = st"
    unfolding st st' r by (rule getStore_again)
  moreover have "ls \<noteq> None \<longrightarrow> ls' = ls"
    unfolding r by (simp add: getStore_kept)
  ultimately show ?thesis
    using nf r by simp
next
  case (Some i)
  let ?ts = "if mode = ''deleteTemplates''
             then filter (\<lambda>t. t_folderId t \<noteq> Some ident) (templates st)
             else map (unfile ident) (templates st)"
  let ?st2 = "st\<lparr>templates := ?ts, folders := splice1 i (folders st)\<rparr>"
  from Some run have r: "ok = True" "ls' = Some ?st2"
    unfolding st by (simp_all add: deleteFolder_found)
  have "version ?st2 \<noteq> 0"
    unfolding st by (simp add: getStore_version)
  then have s2: "st' = ?st2"
    unfolding st' r by (simp add: getStore_def)
  from findIndex_Some [OF Some] have fnd: "find (\<lambda>f. f_id f = ident) (folders st) = Some (folders st ! i)"
    and i: "i < length (folders st)" and fid: "f_id (folders st ! i) = ident"
    by simp_all
  have fo: "folders st' = remove1 (folders st ! i) (folders st)"
    unfolding s2 by (simp add: splice1_remove1 [OF Some])
  have di: "distinct (map f_id (folders st)) \<longrightarrow> ident \<notin> f_id ` set (folders st')"
    using remove1_distinct_key [of f_id "folders st" "folders st ! i"] i fid
    unfolding fo by auto
  have k: "mode \<noteq> ''deleteTemplates'' \<longrightarrow> templates st' = map (unfile ident) (templates st)"
    unfolding s2 by simp
  have d: "mode = ''deleteTemplates'' \<longrightarrow>
             templates st' = filter (\<lambda>t. t_folderId t \<noteq> Some ident) (templates st)"
    unfolding s2 by simp
  have n: "Some ident \<notin> t_folderId ` set (templates st')"
    unfolding s2 by (auto simp: unfile_def)
  have v: "version st' = version st \<and> settings st' = settings st"
    unfolding s2 by simp
  from fnd r fo di k d n v show ?thesis
    by simp
qed

theorem deleteFolder_cascade_witness:
  "find (\<lambda>f. f_id f = ''f1'') (folders (fst (getStore example_storage))) = Some example_folder \<and>
   distinct (map f_id (folders (fst (getStore example_storage)))) \<and>
   deleteFolder ''f1'' ''keep'' example_storage =
     (True, Some (example_store [] [example_template ''t1'' None 2, example_template ''t2'' None 2])) \<and>
   deleteFolder ''f1'' ''deleteTemplates'' example_storage = (True, Some (example_store [] [])) \<and>
   find (\<lambda>f. f_id f = ''f9'') (folders (fst (getStore example_storage))) = None \<and>
   deleteFolder ''f9'' ''keep'' example_storage = (False, example_storage)"
proof -
  have a: "deleteFolder ''f1'' ''keep'' example_storage =
     (True, Some (example_store [] [example_template ''t1'' None 2, example_template ''t2'' None 2]))"
    by (simp add: store_defs example_defs)
  have b: "deleteFolder ''f1'' ''deleteTemplates'' example_storage = (True, Some (example_store [] []))"
    by (simp add: store_defs example_defs)
  have c: "deleteFolder ''f9'' ''keep'' example_storage = (False, example_storage)"
    by (simp add: store_defs example_defs)
  have f: "find (\<lambda>f. f_id f = ''f1'') (folders (fst (getStore example_storage))) = Some example_folder"
    "find (\<lambda>f. f_id f = ''f9'') (folders (fst (getStore example_storage))) = None"
    "distinct (map f_id (folders (fst (getStore example_storage))))"
    by (simp_all add: store_defs example_defs)
  from deleteFolder_cascade [OF a refl refl] deleteFolder_cascade [OF b refl refl]
    deleteFolder_cascade [OF c refl refl] a b c f
  show ?thesis
    by simp
qed

section \<open>Updating a template\<close>

lemma updateTemplate_not_found:
  assumes "findIndex (\<lambda>x. t_id x = ident) (templates (fst (getStore ls))) = None"
  shows "updateTemplate ident p now ls = (False, snd (getStore ls))"
  using assms by (simp add: updateTemplate_def split_beta findIndex_None_iff)

lemma updateTemplate_found:
  assumes "findIndex (\<lambda>x. t_id x = ident) (templates (fst (getStore ls))) = Some i"
  shows "updateTemplate ident p now ls =
           (True, Some ((fst (getStore ls))
              \<lparr>templates := (templates (fst (getStore ls)))
                  [i := apply_patch p now (templates (fst (getStore ls)) ! i)]\<rparr>))"
  using assms findIndex_Some [OF assms]
  by (simp add: updateTemplate_def split_beta saveStore_def update_first_nth)

lemma apply_patch_fields:
  "t_id (apply_patch p now t) = t_id t"
  "t_createdAt (apply_patch p now t) = t_createdAt t"
  "t_updatedAt (apply_patch p now t) = now"
  "t_name (apply_patch p now t) =
     (if p_name p = JUndefined \<or> trim (to_string (p_name p)) = [] then t_name t
      else trim (to_string (p_name p)))"
  "t_subject (apply_patch p now t) =
     (if p_subject p = JUndefined then t_subject t else trim (to_string (p_subject p)))"
  "t_content (apply_patch p now t) =
     (if p_content p = JUndefined then t_content t else to_string (p_content p))"
  "t_folderId (apply_patch p now t) = (case p_folderId p of None \<Rightarrow> t_folderId t | Some fid \<Rightarrow> fid)"
  by (simp_all add: apply_patch_def or_string_def Let_def split: option.splits)

lemma trim_blank:
  assumes "list_all is_space s"
  shows "trim s = []"
proof -
  have e: "dropWhile is_space s = []"
    using assms by (simp add: list_all_iff)
  show ?thesis
    unfolding trim_def e by simp
qed

lemma apply_patch_blank_name:
  assumes "p_name p = JStr s" and "list_all is_space s"
    and "p_subject p = JUndefined" and "p_content p = JUndefined" and "p_folderId p = None"
  shows "apply_patch p now t = t\<lparr>t_updatedAt := now\<rparr>"
  using assms by (simp add: apply_patch_def or_string_def trim_blank)

text \<open>
  Claim C6. \<open>updateTemplate\<close> returns \<open>false\<close> and leaves the store as it was when no
  template has the identifier. Otherwise it returns \<open>true\<close> and changes only that
  template (the first with the identifier): each field of the patch that is present is
  applied, a name that is empty after trimming leaves the name as it was, and
  \<open>updatedAt\<close> becomes the current time in every case; with the patch \<open>{name: "  "}\<close>
  nothing but \<open>updatedAt\<close> changes.
\<close>

theorem updateTemplate_patch:
  assumes run: "updateTemplate ident p now ls = (ok, ls')"
    and st: "st = fst (getStore ls)" and st': "st' = fst (getStore ls')"
  shows "(find (\<lambda>t. t_id t = ident) (templates st) = None \<longrightarrow>
            \<not> ok \<and> st' = st \<and> (ls \<noteq> None \<longrightarrow> ls' = ls))
       \<and> (\<forall>t. find (\<lambda>t. t_id t = ident) (templates st) = Some t \<longrightarrow>
            ok \<and> (\<exists>i t'. i < length (templates st) \<and> templates st ! i = t
                    \<and> templates st' = (templates st)[i := t']
                    \<and> t_id t' = t_id t \<and> t_createdAt t' = t_createdAt t
                    \<and> t_name t' =
                        (if p_name p = JUndefined \<or> trim (to_string (p_name p)) = [] then t_name t
                         else trim (to_string (p_name p)))
                    \<and> t_subject t' =
                        (if p_subject p = JUndefined then t_subject t else trim (to_string (p_subject p)))
                    \<and> t_content t' =
                        (if p_content p = JUndefined then t_content t else to_string (p_content p))
                    \<and> t_folderId t' = (case p_folderId p of None \<Rightarrow> t_folderId t | Some fid \<Rightarrow> fid)
                    \<and> t_updatedAt t' = now
                    \<and> (p = blank_name_patch \<longrightarrow> t' = t\<lparr>t_updatedAt := now\<rparr>))
            \<and> folders st' = folders st \<and> version st' = version st \<and> settings st' = settings st)"
proof (cases "findIndex (\<lambda>x. t_id x = ident) (templates st)")
  case None
  then have nf: "find (\<lambda>t. t_id t = ident) (templates st) = None"
    by (simp add: findIndex_None_iff)
  from None run have r: "ok = False" "ls' = snd (getStore ls)"
    unfolding st by (simp_all add: updateTemplate_not_found)
  have "st' = st"
    unfolding st st' r by (rule getStore_again)
  moreover have "ls \<noteq> None \<longrightarrow> ls' = ls"
    unfolding r by (simp add: getStore_kept)
  ultimately show ?thesis
    using nf r by simp
next
  case (Some i)
  let ?t = "templates st ! i"
  let ?t' = "apply_patch p now ?t"
  let ?st2 = "st\<lparr>templates := (templates st)[i := ?t']\<rparr>"
  from Some run have r: "ok = True" "ls' = Some ?st2"
    unfolding st by (simp_all add: updateTemplate_found)
  have "version ?st2 \<noteq> 0"
    unfolding st by (simp add: getStore_version)
  then have s2: "st' = ?st2"
    unfolding st' r by (simp add: getStore_def)
  from findIndex_Some [OF Some] have fnd: "find (\<lambda>t. t_id t = ident) (templates st) = Some ?t"
    and i: "i < length (templates st)"
    by simp_all
  have blank: "p = blank_name_patch \<longrightarrow> ?t' = ?t\<lparr>t_updatedAt := now\<rparr>"
    by (auto intro!: apply_patch_blank_name simp: blank_name_patch_def is_space_def)
  have ex: "\<exists>i t'. i < length (templates st) \<and> templates st ! i = ?t
                    \<and> templates st' = (templates st)[i := t']
                    \<and> t_id t' = t_id ?t \<and> t_createdAt t' = t_createdAt ?t
                    \<and> t_name t' =
                        (if p_name p = JUndefined \<or> trim (to_string (p_name p)) = [] then t_name ?t
                         else trim (to_string (p_name p)))
                    \<and> t_subject t' =
                        (if p_subject p = JUndefined then t_subject ?t else trim (to_string (p_subject p)))
                    \<and> t_content t' =
                        (if p_content p = JUndefined then t_content ?t else to_string (p_content p))
                    \<and> t_folderId t' = (case p_folderId p of None \<Rightarrow> t_folderId ?t | Some fid \<Rightarrow> fid)
                    \<and> t_updatedAt t' = now
                    \<and> (p = blank_name_patch \<longrightarrow> t' = ?t\<lparr>t_updatedAt := now\<rparr>)"
  proof (rule exI [of _ i], rule exI [of _ ?t'])
    from i blank show "i < length (templates st) \<and> templates st ! i = ?t
                    \<and> templates st' = (templates st)[i := ?t']
                    \<and> t_id ?t' = t_id ?t \<and> t_createdAt ?t' = t_createdAt ?t
                    \<and> t_name ?t' =
                        (if p_name p = JUndefined \<or> trim (to_string (p_name p)) = [] then t_name ?t
                         else trim (to_string (p_name p)))
                    \<and> t_subject ?t' =
                        (if p_subject p = JUndefined then t_subject ?t else trim (to_string (p_subject p)))
                    \<and> t_content ?t' =
                        (if p_content p = JUndefined then t_content ?t else to_string (p_content p))
                    \<and> t_folderId ?t' = (case p_folderId p of None \<Rightarrow> t_folderId ?t | Some fid \<Rightarrow> fid)
                    \<and> t_updatedAt ?t' = now
                    \<and> (p = blank_name_patch \<longrightarrow> ?t' = ?t\<lparr>t_updatedAt := now\<rparr>)"
      unfolding s2 apply_patch_fields by simp
  qed
  have rest: "folders st' = folders st \<and> version st' = version st \<and> settings st' = settings st"
    unfolding s2 by simp
  from fnd r ex rest show ?thesis
    by simp
qed

theorem updateTemplate_patch_witness:
  "find (\<lambda>t. t_id t = ''t1'') (templates (fst (getStore example_storage)))
     = Some (example_template ''t1'' (Some ''f1'') 2) \<and>
   updateTemplate ''t1'' blank_name_patch 9 example_storage =
     (True, Some (example_store [example_folder]
        [example_template ''t1'' (Some ''f1'') 9, example_template ''t2'' (Some ''f1'') 2])) \<and>
   find (\<lambda>t. t_id t = ''t9'') (templates (fst (getStore example_storage))) = None \<and>
   updateTemplate ''t9'' blank_name_patch 9 example_storage = (False, example_storage)"
proof -
  have a: "updateTemplate ''t1'' blank_name_patch 9 example_storage =
     (True, Some (example_store [example_folder]
        [example_template ''t1'' (Some ''f1'') 9, example_template ''t2'' (Some ''f1'') 2]))"
    by (simp add: store_defs example_defs blank_name_patch_def trim_def is_space_def)
  have b: "updateTemplate ''t9'' blank_name_patch 9 example_storage = (False, example_storage)"
    by (simp add: store_defs example_defs)
  have f: "find (\<lambda>t. t_id t = ''t1'') (templates (fst (getStore example_storage)))
      = Some (example_template ''t1'' (Some ''f1'') 2)"
    "find (\<lambda>t. t_id t = ''t9'') (templates (fst (getStore example_storage))) = None"
    by (simp_all add: store_defs example_defs)
  from updateTemplate_patch [OF a refl refl] updateTemplate_patch [OF b refl refl] a b f
  show ?thesis
    by simp
qed

section \<open>Time stamps\<close>

lemma moveTemplatesToFolder_updatedAt:
  "map t_updatedAt (templates (fst (getStore (snd (moveTemplatesToFolder ids fid ls)))))
     = map t_updatedAt (templates (fst (getStore ls)))"
proof -
  let ?st = "fst (getStore ls)"
  let ?st1 = "?st\<lparr>templates :=
                 map (\<lambda>t. if t_id t \<in> set ids then t\<lparr>t_folderId := or_null fid\<rparr> else t) (templates ?st)\<rparr>"
  have "snd (moveTemplatesToFolder ids fid ls) = Some ?st1"
    by (simp add: moveTemplatesToFolder_def split_beta saveStore_def)
  moreover have "version ?st1 \<noteq> 0"
    by (simp add: getStore_version)
  ultimately have "fst (getStore (snd (moveTemplatesToFolder ids fid ls))) = ?st1"
    by (simp add: getStore_def)
  then show ?thesis
    by (simp add: comp_def if_distrib cong: if_cong)
qed

lemma deleteFolder_keep_updatedAt:
  assumes "mode \<noteq> ''deleteTemplates''"
  shows "map t_updatedAt (templates (fst (getStore (snd (deleteFolder ident mode ls)))))
     = map t_updatedAt (templates (fst (getStore ls)))"
proof (cases "findIndex (\<lambda>x. f_id x = ident) (folders (fst (getStore ls)))")
  case None
  then show ?thesis
    by (simp add: deleteFolder_not_found getStore_again)
next
  case (Some i)
  let ?st = "fst (getStore ls)"
  let ?st2 = "?st\<lparr>templates := map (unfile ident) (templates ?st), folders := splice1 i (folders ?st)\<rparr>"
  have "snd (deleteFolder ident mode ls) = Some ?st2"
    using assms by (simp add: deleteFolder_found [OF Some])
  moreover have "version ?st2 \<noteq> 0"
    by (simp add: getStore_version)
  ultimately have "fst (getStore (snd (deleteFolder ident mode ls))) = ?st2"
    by (simp add: getStore_def)
  then show ?thesis
    by (simp add: comp_def unfile_def if_distrib cong: if_cong)
qed

text \<open>
  Claim C7. Every operation that changes a template is to refresh its \<open>updatedAt\<close>.
  \<open>moveTemplatesToFolder\<close> and \<open>deleteFolder\<close> in \<open>'keep'\<close> mode change \<open>folderId\<close> and
  never read the clock: the templates they change keep their old \<open>updatedAt\<close>, where
  \<open>updateTemplate\<close> with the patch \<open>{folderId: null}\<close> makes the same change and sets it.
\<close>

theorem folder_change_keeps_updatedAt:
  "moveTemplatesToFolder [''t1''] None example_storage =
     (True, Some (example_store [example_folder]
        [example_template ''t1'' None 2, example_template ''t2'' (Some ''f1'') 2])) \<and>
   deleteFolder ''f1'' ''keep'' example_storage =
     (True, Some (example_store [] [example_template ''t1'' None 2, example_template ''t2'' None 2])) \<and>
   updateTemplate ''t1'' move_only_patch 9 example_storage =
     (True, Some (example_store [example_folder]
        [example_template ''t1'' None 9, example_template ''t2'' (Some ''f1'') 2]))"
  by (simp add: store_defs example_defs move_only_patch_def)

section \<open>First-run seeding\<close>

lemma seeded_not_None: "seeded ls \<Longrightarrow> ls \<noteq> None"
  by (cases ls) (simp_all add: seeded_def getStore_def initial_store_def)

lemma seeded_Some: "seeded (Some st) = (sampleSeeded (settings st) = Some True)"
  by (simp add: seeded_def getStore_def)

lemma seeded_kept:
  assumes "seeded ls"
    and "r = snd (getStore ls) \<or> (\<exists>st1. r = Some st1 \<and> settings st1 = settings (fst (getStore ls)))"
  shows "seeded r"
  using assms(2)
proof
  assume "r = snd (getStore ls)"
  with assms(1) seeded_not_None [OF assms(1)] show ?thesis
    by (simp add: getStore_kept)
next
  assume "\<exists>st1. r = Some st1 \<and> settings st1 = settings (fst (getStore ls))"
  moreover from assms(1) have "sampleSeeded (settings (fst (getStore ls))) = Some True"
    by (simp add: seeded_def)
  ultimately show ?thesis
    by (auto simp: seeded_Some)
qed

lemma ensure_seeded: "seeded (ensureSampleTemplate uid now1 now2 ls)"
proof (cases "seeded ls")
  case True
  then have "ensureSampleTemplate uid now1 now2 ls = snd (getStore ls)"
    by (simp add: ensureSampleTemplate_def seeded_def split_beta)
  with True show ?thesis
    by (simp add: seeded_kept)
next
  case False
  then show ?thesis
    by (simp add: ensureSampleTemplate_def seeded_def split_beta saveStore_def Let_def getStore_def)
qed

lemma ensure_noop: "seeded ls \<Longrightarrow> ensureSampleTemplate uid now1 now2 ls = ls"
  using seeded_not_None [of ls]
  by (simp add: ensureSampleTemplate_def seeded_def split_beta getStore_kept)

lemma ensure_templates:
  "templates (fst (getStore (ensureSampleTemplate uid now1 now2 ls))) =
     (if \<not> seeded ls \<and> templates (fst (getStore ls)) = [] then [sample uid now1 now2]
      else templates (fst (getStore ls)))"
proof (cases "seeded ls")
  case True
  then show ?thesis
    by (simp add: ensure_noop)
next
  case False
  let ?st = "fst (getStore ls)"
  let ?st1 = "if length (templates ?st) = 0 then ?st\<lparr>templates := templates ?st @ [sample uid now1 now2]\<rparr> else ?st"
  let ?st2 = "?st1\<lparr>settings := (settings ?st1)\<lparr>sampleSeeded := Some True\<rparr>\<rparr>"
  from False have "ensureSampleTemplate uid now1 now2 ls = Some ?st2"
    by (simp add: ensureSampleTemplate_def seeded_def split_beta saveStore_def Let_def)
  moreover have "version ?st2 \<noteq> 0"
    by (simp add: getStore_version)
  ultimately have "fst (getStore (ensureSampleTemplate uid now1 now2 ls)) = ?st2"
    by (simp add: getStore_def)
  with False show ?thesis
    by simp
qed

lemma seeded_createFolder: "seeded ls \<Longrightarrow> seeded (snd (createFolder name uid now ls))"
  by (erule seeded_kept) (simp add: createFolder_def split_beta saveStore_def Let_def)

lemma seeded_renameFolder: "seeded ls \<Longrightarrow> seeded (snd (renameFolder ident newName ls))"
  by (erule seeded_kept)
    (simp add: renameFolder_def split_beta saveStore_def Let_def split: option.splits)

lemma seeded_deleteFolder: "seeded ls \<Longrightarrow> seeded (snd (deleteFolder ident mode ls))"
  by (erule seeded_kept)
    (simp add: deleteFolder_def split_beta saveStore_def Let_def split: option.splits)

lemma seeded_moveTemplatesToFolder: "seeded ls \<Longrightarrow> seeded (snd (moveTemplatesToFolder ids fid ls))"
  by (erule seeded_kept) (simp add: moveTemplatesToFolder_def split_beta saveStore_def Let_def)

lemma seeded_createTemplate:
  "seeded ls \<Longrightarrow> seeded (snd (createTemplate name subject content fid uid now1 now2 ls))"
  by (erule seeded_kept) (simp add: createTemplate_def split_beta saveStore_def Let_def)

lemma seeded_updateTemplate: "seeded ls \<Longrightarrow> seeded (snd (updateTemplate ident p now ls))"
  by (erule seeded_kept)
    (simp add: updateTemplate_def split_beta saveStore_def Let_def split: option.splits)

lemma seeded_deleteTemplate: "seeded ls \<Longrightarrow> seeded (snd (deleteTemplate ident ls))"
  by (erule seeded_kept)
    (simp add: deleteTemplate_def split_beta saveStore_def Let_def split: option.splits)

lemma seeded_call: "seeded ls \<Longrightarrow> seeded (call c ls)"
  by (cases c)
    (simp_all add: ensure_seeded seeded_kept seeded_createFolder seeded_renameFolder seeded_deleteFolder
      seeded_moveTemplatesToFolder seeded_createTemplate seeded_updateTemplate seeded_deleteTemplate)

lemma seeded_calls: "seeded ls \<Longrightarrow> seeded (calls cs ls)"
  by (induction cs arbitrary: ls) (simp_all add: seeded_call)

text \<open>
  Claim C5. The first-run check sets \<open>sampleSeeded\<close>, and adds the sample only when the
  flag was not yet \<open>true\<close> and there was no template. No later call of the store's
  interface resets the flag, so it changes from unset to \<open>true\<close> at most once, and a
  later first-run check leaves the storage as it is: the sample does not come back.
\<close>

theorem sample_seeded_once:
  assumes "ls1 = ensureSampleTemplate uid now1 now2 ls" and "ls2 = calls cs ls1"
  shows "seeded ls1
       \<and> templates (fst (getStore ls1)) =
           (if \<not> seeded ls \<and> templates (fst (getStore ls)) = [] then [sample uid now1 now2]
            else templates (fst (getStore ls)))
       \<and> seeded ls2
       \<and> ensureSampleTemplate uid' now1' now2' ls2 = ls2"
proof -
  have a: "seeded ls1"
    unfolding assms(1) by (rule ensure_seeded)
  then have b: "seeded ls2"
    unfolding assms(2) by (rule seeded_calls)
  from a b ensure_noop [OF b] show ?thesis
    unfolding assms(1) by (simp add: ensure_templates)
qed

theorem sample_seeded_once_witness:
  "\<not> seeded None \<and>
   ensureSampleTemplate ''s1'' 1 1 None = Some (seeded_store [sample ''s1'' 1 1]) \<and>
   calls [DeleteTemplate ''s1''] (Some (seeded_store [sample ''s1'' 1 1])) = Some (seeded_store []) \<and>
   ensureSampleTemplate ''s2'' 5 5 (Some (seeded_store [])) = Some (seeded_store [])"
proof -
  have n: "\<not> seeded None"
    by (simp add: seeded_def getStore_def initial_store_def)
  have e: "ensureSampleTemplate ''s1'' 1 1 None = Some (seeded_store [sample ''s1'' 1 1])"
    by (simp add: store_defs initial_store_def seeded_store_def)
  have d: "calls [DeleteTemplate ''s1''] (Some (seeded_store [sample ''s1'' 1 1])) = Some (seeded_store [])"
    by (simp add: store_defs sample_def seeded_store_def)
  have t: "ensureSampleTemplate ''s2'' 5 5 (Some (seeded_store [])) = Some (seeded_store [])"
    using sample_seeded_once [OF e [symmetric] d [symmetric], of "''s2''" 5 5] by blast
  from n e d t show ?thesis
    by blast
qed

end
